theory Spec2Isabelle
  imports Main "HOL-Library.Word" "HOL-Library.Code_Target_Numeral"
begin

unbundle bit_operations_syntax

section \<open>MAVLink FTP server (libraries/GCS_MAVLink/GCS_FTP.cpp)\<close>

subsection \<open>Data model\<close>

type_synonym u8 = "8 word"
type_synonym u16 = "16 word"
type_synonym u32 = "32 word"

text \<open>\<^verbatim>\<open>size_t\<close> on the flight controllers is an unsigned 32-bit integer; differences of
  sizes wrap around.\<close>

type_synonym size_t = "32 word"

text \<open>Modelled from the spec: the enum \<^verbatim>\<open>FTP_OP : uint8_t\<close> is declared in GCS.h. A request's
  opcode is any byte of the wire (\<^verbatim>\<open>static_cast<FTP_OP>(packet.payload[3])\<close>), so opcodes are
  bytes and the enumerators are names for the values the spec lists.\<close>

abbreviation (input) FTP_OP_None :: u8 where "FTP_OP_None \<equiv> 0"
abbreviation (input) FTP_OP_TerminateSession :: u8 where "FTP_OP_TerminateSession \<equiv> 1"
abbreviation (input) FTP_OP_ResetSessions :: u8 where "FTP_OP_ResetSessions \<equiv> 2"
abbreviation (input) FTP_OP_ListDirectory :: u8 where "FTP_OP_ListDirectory \<equiv> 3"
abbreviation (input) FTP_OP_OpenFileRO :: u8 where "FTP_OP_OpenFileRO \<equiv> 4"
abbreviation (input) FTP_OP_ReadFile :: u8 where "FTP_OP_ReadFile \<equiv> 5"
abbreviation (input) FTP_OP_CreateFile :: u8 where "FTP_OP_CreateFile \<equiv> 6"
abbreviation (input) FTP_OP_WriteFile :: u8 where "FTP_OP_WriteFile \<equiv> 7"
abbreviation (input) FTP_OP_RemoveFile :: u8 where "FTP_OP_RemoveFile \<equiv> 10"
abbreviation (input) FTP_OP_CreateDirectory :: u8 where "FTP_OP_CreateDirectory \<equiv> 11"
abbreviation (input) FTP_OP_RemoveDirectory :: u8 where "FTP_OP_RemoveDirectory \<equiv> 12"
abbreviation (input) FTP_OP_OpenFileWO :: u8 where "FTP_OP_OpenFileWO \<equiv> 13"
abbreviation (input) FTP_OP_TruncateFile :: u8 where "FTP_OP_TruncateFile \<equiv> 14"
abbreviation (input) FTP_OP_BurstReadFile :: u8 where "FTP_OP_BurstReadFile \<equiv> 15"
abbreviation (input) FTP_OP_Rename :: u8 where "FTP_OP_Rename \<equiv> 16"
abbreviation (input) FTP_OP_CalcFileCRC32 :: u8 where "FTP_OP_CalcFileCRC32 \<equiv> 17"
abbreviation (input) FTP_OP_Ack :: u8 where "FTP_OP_Ack \<equiv> 128"
abbreviation (input) FTP_OP_Nack :: u8 where "FTP_OP_Nack \<equiv> 129"

text \<open>Modelled from the spec: the enum \<^verbatim>\<open>FTP_ERROR : uint8_t\<close> of GCS.h, with the wire values
  of the spec's table of error codes.\<close>

datatype FTP_ERROR = None_err | Fail | FailErrno | InvalidDataSize | InvalidSession
  | NoSessionsAvailable | EndOfFile | UnknownCommand | FileExists | FileNotFound

fun err_byte :: "FTP_ERROR \<Rightarrow> u8" where
  "err_byte None_err = 0"
| "err_byte Fail = 1"
| "err_byte FailErrno = 2"
| "err_byte InvalidDataSize = 3"
| "err_byte InvalidSession = 4"
| "err_byte NoSessionsAvailable = 5"
| "err_byte EndOfFile = 6"
| "err_byte UnknownCommand = 7"
| "err_byte FileExists = 8"
| "err_byte FileNotFound = 9"

text \<open>Modelled from the spec: \<^verbatim>\<open>struct pending_ftp\<close> of GCS.h, the shape shared by requests and
  replies. \<open>data\<close> is the array \<^verbatim>\<open>uint8_t data[239]\<close>: a list of 239 bytes.\<close>

record pending_ftp =
  offset :: u32
  chan :: nat
  seq_number :: u16
  opcode :: u8
  req_opcode :: u8
  burst_complete :: bool
  size_f :: u8
  session :: u8
  sysid :: u8
  compid :: u8
  data :: "u8 list"

abbreviation (input) DATA_LEN :: nat where "DATA_LEN \<equiv> 239"

text \<open>The host's \<^verbatim>\<open>errno\<close> values the code names (errno.h).\<close>

definition EEXIST :: int where "EEXIST = 17"
definition ENOENT :: int where "ENOENT = 2"

subsection \<open>C strings in a byte buffer\<close>

text \<open>\<^verbatim>\<open>strnlen(s, n)\<close>: the number of bytes before the first NUL among the first \<open>n\<close>.\<close>

definition strnlen :: "u8 list \<Rightarrow> nat \<Rightarrow> nat" where
  "strnlen s n = length (takeWhile (\<lambda>b. b \<noteq> 0) (take n s))"

text \<open>The bytes of the NUL-terminated string that starts a buffer.\<close>

definition cstr :: "u8 list \<Rightarrow> u8 list" where
  "cstr s = takeWhile (\<lambda>b. b \<noteq> 0) s"

subsection \<open>Name-length check and error replies\<close>

definition ftp_check_name_len :: "pending_ftp \<Rightarrow> bool" where
  "ftp_check_name_len request =
     (let file_name_len = strnlen (data request) DATA_LEN in
      if size_f request = 0 then False
      else if file_name_len = unat (size_f request) then True
      else ((ucast (size_f request) :: size_t) - of_nat file_name_len = 1)
           \<and> (data request ! (DATA_LEN - 1) = 0))"

text \<open>\<^verbatim>\<open>ftp_error\<close> reads the global \<^verbatim>\<open>errno\<close>; its value at the call is the first argument.\<close>

definition ftp_error :: "int \<Rightarrow> pending_ftp \<Rightarrow> FTP_ERROR \<Rightarrow> pending_ftp" where
  "ftp_error errno response error =
     (let response = response\<lparr>opcode := FTP_OP_Nack,
                               data := (data response)[0 := err_byte error],
                               size_f := 1\<rparr>
      in if error = FailErrno then
           (if errno = EEXIST then response\<lparr>data := (data response)[0 := err_byte FileExists]\<rparr>
            else if errno = ENOENT then response\<lparr>data := (data response)[0 := err_byte FileNotFound]\<rparr>
            else response\<lparr>data := (data response)[1 := word_of_int errno], size_f := 2\<rparr>)
         else response)"

subsection \<open>Session state, collaborators and the call log\<close>

text \<open>Modelled from the spec: \<^verbatim>\<open>enum FTP_FILE_MODE\<close> and \<^verbatim>\<open>struct ftp_state\<close> of GCS.h. The file
  handle is an \<^verbatim>\<open>int\<close> with \<open>-1\<close> for "none"; \<open>current_session\<close> is a signed integer wider than
  the session byte, so that \<open>-1\<close> ("none") differs from every session id.\<close>

datatype FTP_FILE_MODE = Read | Write

record ftp_state =
  fd :: int
  mode :: FTP_FILE_MODE
  current_session :: int
  last_send_ms :: u32
  need_banner_send_mask :: u8

abbreviation (input) FTP_SESSION_TIMEOUT :: u32 where "FTP_SESSION_TIMEOUT \<equiv> 3000"

datatype open_flags = O_RDONLY | O_WRONLY | O_WRONLY_CREAT_TRUNC

text \<open>What the code reads of \<^verbatim>\<open>struct stat\<close> and \<^verbatim>\<open>struct dirent\<close>: the size and \<^verbatim>\<open>S_ISDIR(st_mode)\<close>;
  the type and the name (a C string, given without its NUL).\<close>

record stat =
  st_size :: nat
  st_isdir :: bool

record dirent =
  d_type :: nat
  d_name :: "u8 list"

definition DT_DIR :: nat where "DT_DIR = 4"
definition DT_REG :: nat where "DT_REG = 8"
definition DT_LNK :: nat where "DT_LNK = 10"

record uart_port =
  flow_control_enabled :: bool
  bw_in_bytes_per_second :: u32

text \<open>The collaborators of the FTP server are outside this file: the filesystem \<^verbatim>\<open>AP::FS()\<close>,
  the clock and scheduler of the HAL, the MAVLink transport, \<^verbatim>\<open>errno\<close>. They are a parameter of
  the model: a record of functions over a state \<open>'w\<close> of the outside world, about which nothing
  is assumed. A call that fails with \<open>-1\<close> returns that integer; \<^verbatim>\<open>stat\<close> (non-zero on failure),
  \<^verbatim>\<open>read\<close> (\<open>-1\<close> on failure), \<^verbatim>\<open>crc32\<close> (false on failure) and \<^verbatim>\<open>opendir\<close> (null on failure)
  return \<open>None\<close> then. A directory stream is the finite list of its entries: \<^verbatim>\<open>readdir\<close> returns
  them in order and null after the last. The two compile-time settings of \<^verbatim>\<open>gen_dir_entry\<close> are
  fields too.\<close>

record 'w env =
  millis :: "'w \<Rightarrow> u32"
  delay :: "nat \<Rightarrow> 'w \<Rightarrow> 'w"
  errno_of :: "'w \<Rightarrow> int"
  last_txbuf_is_greater :: "nat \<Rightarrow> 'w \<Rightarrow> bool"
  have_payload_space :: "'w \<Rightarrow> bool"
  mavlink_send :: "nat \<Rightarrow> u8 \<Rightarrow> u8 \<Rightarrow> u8 list \<Rightarrow> 'w \<Rightarrow> 'w"
  send_banner :: "'w \<Rightarrow> 'w"
  valid_channel :: "nat \<Rightarrow> bool"
  comm_port :: "nat \<Rightarrow> 'w \<Rightarrow> uart_port option"
  payload_size :: "nat \<Rightarrow> 'w \<Rightarrow> nat"
  fs_open :: "u8 list \<Rightarrow> open_flags \<Rightarrow> 'w \<Rightarrow> int \<times> 'w"
  fs_close :: "int \<Rightarrow> 'w \<Rightarrow> 'w"
  fs_stat :: "u8 list \<Rightarrow> 'w \<Rightarrow> stat option \<times> 'w"
  fs_lseek :: "int \<Rightarrow> u32 \<Rightarrow> 'w \<Rightarrow> int \<times> 'w"
  fs_read :: "int \<Rightarrow> nat \<Rightarrow> 'w \<Rightarrow> u8 list option \<times> 'w"
  fs_write :: "int \<Rightarrow> u8 list \<Rightarrow> 'w \<Rightarrow> int \<times> 'w"
  fs_mkdir :: "u8 list \<Rightarrow> 'w \<Rightarrow> int \<times> 'w"
  fs_unlink :: "u8 list \<Rightarrow> 'w \<Rightarrow> int \<times> 'w"
  fs_rename :: "u8 list \<Rightarrow> u8 list \<Rightarrow> 'w \<Rightarrow> int \<times> 'w"
  fs_crc32 :: "u8 list \<Rightarrow> 'w \<Rightarrow> u32 option \<times> 'w"
  fs_opendir :: "u8 list \<Rightarrow> 'w \<Rightarrow> dirent list option \<times> 'w"
  fs_closedir :: "'w \<Rightarrow> 'w"
  have_dirent_dtype :: bool
  max_name_len :: nat

text \<open>The log lists the calls the worker makes on its collaborators, the newest first: every
  filesystem call with its arguments (and the result of \<^verbatim>\<open>open\<close> and \<^verbatim>\<open>read\<close>), every reply
  handed to the transport, every banner.\<close>

datatype event =
    FsOpen "u8 list" open_flags int
  | FsClose int
  | FsStat "u8 list"
  | FsLseek int u32
  | FsRead int nat "u8 list option"
  | FsWrite int "u8 list"
  | FsMkdir "u8 list"
  | FsUnlink "u8 list"
  | FsRename "u8 list" "u8 list"
  | FsCrc32 "u8 list"
  | FsOpendir "u8 list"
  | FsClosedir
  | Sent pending_ftp
  | Banner

text \<open>Everything the worker can change: the session state \<^verbatim>\<open>GCS_MAVLINK::ftp\<close>, the outside
  world, and the log.\<close>

record 'w sys =
  ftp :: ftp_state
  world :: 'w
  log :: "event list"

definition FS_open :: "'w env \<Rightarrow> u8 list \<Rightarrow> open_flags \<Rightarrow> 'w sys \<Rightarrow> int \<times> 'w sys" where
  "FS_open E path flags s =
     (let (r, w) = fs_open E path flags (world s)
      in (r, s\<lparr>world := w, log := FsOpen path flags r # log s\<rparr>))"

definition FS_close :: "'w env \<Rightarrow> int \<Rightarrow> 'w sys \<Rightarrow> 'w sys" where
  "FS_close E f s = s\<lparr>world := fs_close E f (world s), log := FsClose f # log s\<rparr>"

definition FS_stat :: "'w env \<Rightarrow> u8 list \<Rightarrow> 'w sys \<Rightarrow> stat option \<times> 'w sys" where
  "FS_stat E path s =
     (let (r, w) = fs_stat E path (world s)
      in (r, s\<lparr>world := w, log := FsStat path # log s\<rparr>))"

definition FS_lseek :: "'w env \<Rightarrow> int \<Rightarrow> u32 \<Rightarrow> 'w sys \<Rightarrow> int \<times> 'w sys" where
  "FS_lseek E f off s =
     (let (r, w) = fs_lseek E f off (world s)
      in (r, s\<lparr>world := w, log := FsLseek f off # log s\<rparr>))"

text \<open>\<^verbatim>\<open>read(fd, buf, n)\<close> stores at most \<open>n\<close> bytes.\<close>

definition FS_read :: "'w env \<Rightarrow> int \<Rightarrow> nat \<Rightarrow> 'w sys \<Rightarrow> u8 list option \<times> 'w sys" where
  "FS_read E f n s =
     (let (r, w) = fs_read E f n (world s); r = map_option (take n) r
      in (r, s\<lparr>world := w, log := FsRead f n r # log s\<rparr>))"

definition FS_write :: "'w env \<Rightarrow> int \<Rightarrow> u8 list \<Rightarrow> 'w sys \<Rightarrow> int \<times> 'w sys" where
  "FS_write E f bs s =
     (let (r, w) = fs_write E f bs (world s)
      in (r, s\<lparr>world := w, log := FsWrite f bs # log s\<rparr>))"

definition FS_mkdir :: "'w env \<Rightarrow> u8 list \<Rightarrow> 'w sys \<Rightarrow> int \<times> 'w sys" where
  "FS_mkdir E path s =
     (let (r, w) = fs_mkdir E path (world s)
      in (r, s\<lparr>world := w, log := FsMkdir path # log s\<rparr>))"

definition FS_unlink :: "'w env \<Rightarrow> u8 list \<Rightarrow> 'w sys \<Rightarrow> int \<times> 'w sys" where
  "FS_unlink E path s =
     (let (r, w) = fs_unlink E path (world s)
      in (r, s\<lparr>world := w, log := FsUnlink path # log s\<rparr>))"

definition FS_rename :: "'w env \<Rightarrow> u8 list \<Rightarrow> u8 list \<Rightarrow> 'w sys \<Rightarrow> int \<times> 'w sys" where
  "FS_rename E old new s =
     (let (r, w) = fs_rename E old new (world s)
      in (r, s\<lparr>world := w, log := FsRename old new # log s\<rparr>))"

definition FS_crc32 :: "'w env \<Rightarrow> u8 list \<Rightarrow> 'w sys \<Rightarrow> u32 option \<times> 'w sys" where
  "FS_crc32 E path s =
     (let (r, w) = fs_crc32 E path (world s)
      in (r, s\<lparr>world := w, log := FsCrc32 path # log s\<rparr>))"

definition FS_opendir :: "'w env \<Rightarrow> u8 list \<Rightarrow> 'w sys \<Rightarrow> dirent list option \<times> 'w sys" where
  "FS_opendir E path s =
     (let (r, w) = fs_opendir E path (world s)
      in (r, s\<lparr>world := w, log := FsOpendir path # log s\<rparr>))"

definition FS_closedir :: "'w env \<Rightarrow> 'w sys \<Rightarrow> 'w sys" where
  "FS_closedir E s = s\<lparr>world := fs_closedir E (world s), log := FsClosedir # log s\<rparr>"

text \<open>\<^verbatim>\<open>ftp_error\<close> with the \<^verbatim>\<open>errno\<close> of the moment.\<close>

definition ftp_error_at :: "'w env \<Rightarrow> 'w sys \<Rightarrow> pending_ftp \<Rightarrow> FTP_ERROR \<Rightarrow> pending_ftp" where
  "ftp_error_at E s response error = ftp_error (errno_of E (world s)) response error"

subsection \<open>The reply pump\<close>

definition put_le16 :: "u16 \<Rightarrow> u8 list" where
  "put_le16 v = [ucast v, ucast (drop_bit 8 v)]"

definition put_le32 :: "u32 \<Rightarrow> u8 list" where
  "put_le32 v = [ucast v, ucast (drop_bit 8 v), ucast (drop_bit 16 v), ucast (drop_bit 24 v)]"

text \<open>The 251 bytes \<^verbatim>\<open>send_ftp_reply\<close> builds from a reply.\<close>

definition ftp_payload :: "pending_ftp \<Rightarrow> u8 list" where
  "ftp_payload reply =
     put_le16 (seq_number reply)
     @ [session reply, opcode reply, size_f reply, req_opcode reply,
        (if burst_complete reply then 1 else 0), 0]
     @ put_le32 (offset reply)
     @ take DATA_LEN (data reply)"

definition send_ftp_reply :: "'w env \<Rightarrow> pending_ftp \<Rightarrow> 'w sys \<Rightarrow> bool \<times> 'w sys" where
  "send_ftp_reply E reply s =
     (if \<not> last_txbuf_is_greater E 33 (world s) then (False, s)
      else if \<not> have_payload_space E (world s) then (False, s)
      else (True, s\<lparr>world := mavlink_send E (chan reply) (sysid reply) (compid reply)
                                  (ftp_payload reply) (world s),
                     log := Sent reply # log s\<rparr>))"

text \<open>\<^verbatim>\<open>while (!send_ftp_reply(reply)) { hal.scheduler->delay(2); }\<close> need not end: \<open>None\<close> is
  the loop that spins for ever.\<close>

partial_function (option) send_retry :: "'w env \<Rightarrow> pending_ftp \<Rightarrow> 'w sys \<Rightarrow> 'w sys option" where
  "send_retry E reply s =
     (if fst (send_ftp_reply E reply s) then Some (snd (send_ftp_reply E reply s))
      else send_retry E reply
             ((snd (send_ftp_reply E reply s))
                \<lparr>world := delay E 2 (world (snd (send_ftp_reply E reply s)))\<rparr>))"

declare send_retry.simps [code]

definition banner_due :: "ftp_state \<Rightarrow> nat \<Rightarrow> bool" where
  "banner_due f c \<longleftrightarrow> (ucast (need_banner_send_mask f) :: u32) AND push_bit c 1 \<noteq> 0"

definition ftp_push_replies :: "'w env \<Rightarrow> pending_ftp \<Rightarrow> 'w sys \<Rightarrow> 'w sys option" where
  "ftp_push_replies E reply s =
     (case send_retry E reply (s\<lparr>ftp := (ftp s)\<lparr>last_send_ms := millis E (world s)\<rparr>\<rparr>) of
        None \<Rightarrow> None
      | Some s \<Rightarrow>
          let s = (if req_opcode reply = FTP_OP_TerminateSession
                   then s\<lparr>ftp := (ftp s)\<lparr>last_send_ms := 0\<rparr>\<rparr> else s)
          in Some (if banner_due (ftp s) (chan reply)
                   then s\<lparr>ftp := (ftp s)\<lparr>need_banner_send_mask :=
                                   ucast ((ucast (need_banner_send_mask (ftp s)) :: u32)
                                          AND NOT (push_bit (chan reply) 1))\<rparr>,
                          world := send_banner E (world s),
                          log := Banner # log s\<rparr>
                   else s))"

subsection \<open>Directory listing\<close>

text \<open>\<^verbatim>\<open>snprintf(dest, space, ...)\<close> of the C library, on the text the format expands to: it returns
  the length of the whole text and stores what fits in \<open>space - 1\<close> bytes, then a NUL.\<close>

definition c_snprintf :: "nat \<Rightarrow> u8 list \<Rightarrow> int \<times> u8 list" where
  "c_snprintf space txt =
     (int (length txt), if space = 0 then [] else take (space - 1) txt @ [0])"

text \<open>The digits of \<^verbatim>\<open>%u\<close>.\<close>

fun dec_digits :: "nat \<Rightarrow> u8 list" where
  "dec_digits n =
     (if n < 10 then [of_nat (48 + n)] else dec_digits (n div 10) @ [of_nat (48 + n mod 10)])"

declare dec_digits.simps [simp del]

definition bytes_of :: "string \<Rightarrow> u8 list" where
  "bytes_of str = map of_char str"

text \<open>Storing bytes in a buffer from an index on.\<close>

definition buf_write :: "u8 list \<Rightarrow> nat \<Rightarrow> u8 list \<Rightarrow> u8 list" where
  "buf_write buf i bs = take i buf @ take (length buf - i) bs @ drop (i + length bs) buf"

text \<open>\<^verbatim>\<open>gen_dir_entry(dest, space, path, entry)\<close> returns the result of the C function and the
  bytes it has stored from \<open>dest\<close> on.\<close>

definition gen_dir_entry ::
    "'w env \<Rightarrow> nat \<Rightarrow> u8 list \<Rightarrow> dirent \<Rightarrow> 'w sys \<Rightarrow> (int \<times> u8 list) \<times> 'w sys" where
  "gen_dir_entry E space path entry s =
     (let is_file = (if have_dirent_dtype E
                     then d_type entry = DT_REG \<or> d_type entry = DT_LNK else True)
      in if space < 3 then ((- 1, []), s)
         else if have_dirent_dtype E \<and> \<not> is_file \<and> d_type entry \<noteq> DT_DIR then ((- 1, [0]), s)
         else if is_file then
           (let full_path_len = length path + min (length (d_name entry)) (max_name_len E);
                full_path = take (full_path_len + 1) (path @ bytes_of ''/'' @ d_name entry);
                (st, s) = FS_stat E full_path s
            in case st of
                 None \<Rightarrow> ((- 1, [0]), s)
               | Some st \<Rightarrow>
                   if \<not> have_dirent_dtype E \<and> st_isdir st
                   then (c_snprintf space (bytes_of ''D'' @ d_name entry @ [0]), s)
                   else (c_snprintf space
                           (bytes_of ''F'' @ d_name entry @ [9]
                            @ dec_digits (st_size st mod 2 ^ 32) @ [0]), s))
         else (c_snprintf space (bytes_of ''D'' @ d_name entry @ [0]), s))"

text \<open>The first loop of \<^verbatim>\<open>ftp_list_dir\<close>, "burn the entries we don't care about": \<open>None\<close> when
  \<^verbatim>\<open>readdir\<close> returns null before the offset is used up, else the entries not read yet.\<close>

fun skip_entries ::
    "'w env \<Rightarrow> u8 list \<Rightarrow> u32 \<Rightarrow> dirent list \<Rightarrow> pending_ftp \<Rightarrow> 'w sys
     \<Rightarrow> dirent list option \<times> pending_ftp \<times> 'w sys" where
  "skip_entries E path off [] response s =
     (if off > 0 then (None, response, s) else (Some [], response, s))"
| "skip_entries E path off (entry # rest) response s =
     (if off > 0 then
        (let ((needed_space, stored), s) = gen_dir_entry E DATA_LEN path entry s;
             response = response\<lparr>data := buf_write (data response) 0 stored\<rparr>
         in if needed_space < 0 \<or> needed_space > 239
            then skip_entries E path off rest response s
            else skip_entries E path (off - 1) rest response s)
      else (Some (entry # rest), response, s))"

text \<open>The second loop, "start packing in entries that fit". \<open>index\<close> is a \<^verbatim>\<open>uint8_t\<close>.\<close>

fun pack_entries ::
    "'w env \<Rightarrow> u8 list \<Rightarrow> dirent list \<Rightarrow> u8 \<Rightarrow> pending_ftp \<Rightarrow> 'w sys
     \<Rightarrow> u8 \<times> pending_ftp \<times> 'w sys" where
  "pack_entries E path [] index response s = (index, response, s)"
| "pack_entries E path (entry # rest) index response s =
     (let ((required_space, stored), s) =
            gen_dir_entry E (DATA_LEN - unat index) path entry s;
          response = response\<lparr>data := buf_write (data response) (unat index) stored\<rparr>
      in if required_space < 0 then pack_entries E path rest index response s
         else if required_space + uint index \<ge> 239 then (index, response, s)
         else pack_entries E path rest (index + word_of_int (required_space + 1)) response s)"

text \<open>The directory \<^verbatim>\<open>ftp_list_dir\<close> opens: the path of the request, closed by a NUL in the
  last byte of the data, with one trailing \<^verbatim>\<open>/\<close> stripped unless it is the whole path.\<close>

definition list_dir_path :: "pending_ftp \<Rightarrow> u8 list" where
  "list_dir_path request =
     (let d = (data request)[DATA_LEN - 1 := 0];
          dir_len = length (cstr d);
          d = (if dir_len > 1 \<and> d ! (dir_len - 1) = of_char CHR ''/''
               then d[dir_len - 1 := 0] else d)
      in cstr d)"

definition ftp_list_dir :: "'w env \<Rightarrow> pending_ftp \<Rightarrow> pending_ftp \<Rightarrow> 'w sys \<Rightarrow> pending_ftp \<times> 'w sys" where
  "ftp_list_dir E request response s =
     (let response = response\<lparr>offset := offset request\<rparr>
      in if \<not> ftp_check_name_len request then (ftp_error_at E s response InvalidDataSize, s)
         else
           (let path = list_dir_path request;
                (dir, s) = FS_opendir E path s
            in case dir of
                 None \<Rightarrow> (ftp_error_at E s response FailErrno, s)
               | Some entries \<Rightarrow>
                   (case skip_entries E path (offset request) entries response s of
                      (None, response, s) \<Rightarrow>
                        (ftp_error_at E s response EndOfFile, FS_closedir E s)
                    | (Some rest, response, s) \<Rightarrow>
                        (let (index, response, s) = pack_entries E path rest 0 response s
                         in if index = 0
                            then (ftp_error_at E s response EndOfFile, FS_closedir E s)
                            else
                              (let response =
                                     (if unat index < DATA_LEN
                                      then response\<lparr>data := take (unat index) (data response)
                                              @ replicate (DATA_LEN - unat index) 0\<rparr>
                                      else response)
                               in (response\<lparr>opcode := FTP_OP_Ack, size_f := index\<rparr>,
                                   FS_closedir E s))))))"

subsection \<open>The cases of the dispatcher\<close>

text \<open>Each case of the \<^verbatim>\<open>switch\<close> of \<^verbatim>\<open>ftp_worker\<close> maps the reply under construction and the
  state to the reply and the state at its \<^verbatim>\<open>break\<close>. \<open>now\<close> is the time read before the session
  checks.\<close>

definition close_session :: "'w env \<Rightarrow> 'w sys \<Rightarrow> 'w sys" where
  "close_session E s =
     (let s = FS_close E (fd (ftp s)) s
      in s\<lparr>ftp := (ftp s)\<lparr>fd := - 1, current_session := - 1\<rparr>\<rparr>)"

definition op_TerminateSession :: "'w env \<Rightarrow> pending_ftp \<Rightarrow> 'w sys \<Rightarrow> pending_ftp \<times> 'w sys" where
  "op_TerminateSession E reply s =
     (let s = (if fd (ftp s) \<noteq> - 1
               then (FS_close E (fd (ftp s)) s)\<lparr>ftp := (ftp s)\<lparr>fd := - 1\<rparr>\<rparr> else s);
          s = s\<lparr>ftp := (ftp s)\<lparr>current_session := - 1\<rparr>\<rparr>
      in (reply\<lparr>opcode := FTP_OP_Ack\<rparr>, s))"

definition op_OpenFileRO ::
    "'w env \<Rightarrow> u32 \<Rightarrow> pending_ftp \<Rightarrow> pending_ftp \<Rightarrow> 'w sys \<Rightarrow> pending_ftp \<times> 'w sys" where
  "op_OpenFileRO E now request reply s =
     (let s = (if fd (ftp s) \<noteq> - 1 \<and> now - last_send_ms (ftp s) > FTP_SESSION_TIMEOUT
               then close_session E s else s)
      in if fd (ftp s) \<noteq> - 1 then (ftp_error_at E s reply Fail, s)
         else if \<not> ftp_check_name_len request then (ftp_error_at E s reply InvalidDataSize, s)
         else
           (let d = (data request)[DATA_LEN - 1 := 0];
                (st, s) = FS_stat E (cstr d) s
            in case st of
                 None \<Rightarrow> (ftp_error_at E s reply FailErrno, s)
               | Some st \<Rightarrow>
                   (let file_size = st_size st;
                        (f, s) = FS_open E (cstr d) O_RDONLY s;
                        s = s\<lparr>ftp := (ftp s)\<lparr>fd := f\<rparr>\<rparr>
                    in if f = - 1 then (ftp_error_at E s reply FailErrno, s)
                       else
                         (let s = s\<lparr>ftp := (ftp s)\<lparr>mode := Read,
                                     current_session := uint (session request)\<rparr>\<rparr>;
                              reply = reply\<lparr>opcode := FTP_OP_Ack, size_f := 4,
                                        data := buf_write (data reply) 0
                                                  (put_le32 (of_nat file_size))\<rparr>;
                              s = (if take 16 (cstr d) = bytes_of ''@PARAM/param.pck''
                                   then s\<lparr>ftp := (ftp s)\<lparr>need_banner_send_mask :=
                                          need_banner_send_mask (ftp s)
                                          OR ucast (push_bit (chan reply) 1 :: u32)\<rparr>\<rparr>
                                   else s)
                          in (reply, s)))))"

definition op_ReadFile :: "'w env \<Rightarrow> pending_ftp \<Rightarrow> pending_ftp \<Rightarrow> 'w sys \<Rightarrow> pending_ftp \<times> 'w sys" where
  "op_ReadFile E request reply s =
     (if fd (ftp s) = - 1 then (ftp_error_at E s reply FileNotFound, s)
      else if mode (ftp s) \<noteq> Read then (ftp_error_at E s reply Fail, s)
      else
        (let (r, s) = FS_lseek E (fd (ftp s)) (offset request) s
         in if r = - 1 then (ftp_error_at E s reply FailErrno, s)
            else
              (let (rd, s) = FS_read E (fd (ftp s)) (min DATA_LEN (unat (size_f request))) s
               in case rd of
                    None \<Rightarrow> (ftp_error_at E s reply FailErrno, s)
                  | Some bs \<Rightarrow>
                      (let reply = reply\<lparr>data := buf_write (data reply) 0 bs\<rparr>
                       in if length bs = 0 then (ftp_error_at E s reply EndOfFile, s)
                          else (reply\<lparr>opcode := FTP_OP_Ack, offset := offset request,
                                      size_f := of_nat (length bs)\<rparr>, s)))))"

definition op_OpenFileWO ::
    "'w env \<Rightarrow> pending_ftp \<Rightarrow> pending_ftp \<Rightarrow> 'w sys \<Rightarrow> pending_ftp \<times> 'w sys" where
  "op_OpenFileWO E request reply s =
     (if fd (ftp s) \<noteq> - 1 then (ftp_error_at E s reply Fail, s)
      else if \<not> ftp_check_name_len request then (ftp_error_at E s reply InvalidDataSize, s)
      else
        (let d = (data request)[DATA_LEN - 1 := 0];
             (f, s) = FS_open E (cstr d)
                        (if opcode request = FTP_OP_CreateFile
                         then O_WRONLY_CREAT_TRUNC else O_WRONLY) s;
             s = s\<lparr>ftp := (ftp s)\<lparr>fd := f\<rparr>\<rparr>
         in if f = - 1 then (ftp_error_at E s reply FailErrno, s)
            else (reply\<lparr>opcode := FTP_OP_Ack\<rparr>,
                  s\<lparr>ftp := (ftp s)\<lparr>mode := Write,
                                    current_session := uint (session request)\<rparr>\<rparr>)))"

definition op_WriteFile :: "'w env \<Rightarrow> pending_ftp \<Rightarrow> pending_ftp \<Rightarrow> 'w sys \<Rightarrow> pending_ftp \<times> 'w sys" where
  "op_WriteFile E request reply s =
     (if fd (ftp s) = - 1 then (ftp_error_at E s reply FileNotFound, s)
      else if mode (ftp s) \<noteq> Write then (ftp_error_at E s reply Fail, s)
      else
        (let (r, s) = FS_lseek E (fd (ftp s)) (offset request) s
         in if r = - 1 then (ftp_error_at E s reply FailErrno, s)
            else
              (let (wr, s) = FS_write E (fd (ftp s))
                               (take (unat (size_f request)) (data request)) s
               in if wr = - 1 then (ftp_error_at E s reply FailErrno, s)
                  else (reply\<lparr>opcode := FTP_OP_Ack, offset := offset request\<rparr>, s))))"

definition op_CreateDirectory ::
    "'w env \<Rightarrow> pending_ftp \<Rightarrow> pending_ftp \<Rightarrow> 'w sys \<Rightarrow> pending_ftp \<times> 'w sys" where
  "op_CreateDirectory E request reply s =
     (if \<not> ftp_check_name_len request then (ftp_error_at E s reply InvalidDataSize, s)
      else
        (let d = (data request)[DATA_LEN - 1 := 0];
             (r, s) = FS_mkdir E (cstr d) s
         in if r = - 1 then (ftp_error_at E s reply FailErrno, s)
            else (reply\<lparr>opcode := FTP_OP_Ack\<rparr>, s)))"

definition op_RemoveFile ::
    "'w env \<Rightarrow> pending_ftp \<Rightarrow> pending_ftp \<Rightarrow> 'w sys \<Rightarrow> pending_ftp \<times> 'w sys" where
  "op_RemoveFile E request reply s =
     (if \<not> ftp_check_name_len request then (ftp_error_at E s reply InvalidDataSize, s)
      else
        (let d = (data request)[DATA_LEN - 1 := 0];
             (r, s) = FS_unlink E (cstr d) s
         in if r = - 1 then (ftp_error_at E s reply FailErrno, s)
            else (reply\<lparr>opcode := FTP_OP_Ack\<rparr>, s)))"

definition op_CalcFileCRC32 ::
    "'w env \<Rightarrow> pending_ftp \<Rightarrow> pending_ftp \<Rightarrow> 'w sys \<Rightarrow> pending_ftp \<times> 'w sys" where
  "op_CalcFileCRC32 E request reply s =
     (if \<not> ftp_check_name_len request then (ftp_error_at E s reply InvalidDataSize, s)
      else
        (let d = (data request)[DATA_LEN - 1 := 0];
             (r, s) = FS_crc32 E (cstr d) s
         in case r of
              None \<Rightarrow> (ftp_error_at E s reply FailErrno, s)
            | Some checksum \<Rightarrow>
                (reply\<lparr>data := buf_write (replicate DATA_LEN 0) 0 (put_le32 checksum),
                       size_f := 4, opcode := FTP_OP_Ack\<rparr>, s)))"

text \<open>The check of the \<^verbatim>\<open>Rename\<close> case, with the sizes in \<^verbatim>\<open>size_t\<close>.\<close>

definition rename_len1 :: "pending_ftp \<Rightarrow> nat" where
  "rename_len1 request = strnlen (data request) (DATA_LEN - 2)"

definition rename_len2 :: "pending_ftp \<Rightarrow> nat" where
  "rename_len2 request =
     strnlen (drop (rename_len1 request + 1) (data request))
             (DATA_LEN - (rename_len1 request + 1))"

definition rename_rejected :: "pending_ftp \<Rightarrow> bool" where
  "rename_rejected request =
     (let len1 = rename_len1 request;
          len2 = rename_len2 request;
          is_req_size_consider_tnull =
            ((ucast (size_f request) :: size_t) - (of_nat len1 + of_nat len2) = 2
             \<and> data request ! (DATA_LEN - 1) = 0)
      in data request ! len1 \<noteq> 0
         \<or> (((of_nat len1 + of_nat len2 + 1 :: size_t) \<noteq> ucast (size_f request))
             \<and> \<not> is_req_size_consider_tnull)
         \<or> size_f request = 0)"

definition op_Rename :: "'w env \<Rightarrow> pending_ftp \<Rightarrow> pending_ftp \<Rightarrow> 'w sys \<Rightarrow> pending_ftp \<times> 'w sys" where
  "op_Rename E request reply s =
     (if rename_rejected request then (ftp_error_at E s reply InvalidDataSize, s)
      else
        (let d = (data request)[DATA_LEN - 1 := 0];
             filename1 = cstr d;
             filename2 = cstr (drop (rename_len1 request + 1) d);
             (r, s) = FS_rename E filename1 filename2 s
         in if r \<noteq> 0 then (ftp_error_at E s reply FailErrno, s)
            else (reply\<lparr>opcode := FTP_OP_Ack\<rparr>, s)))"

subsection \<open>Burst read\<close>

definition burst_max_read :: "pending_ftp \<Rightarrow> nat" where
  "burst_max_read request = (if size_f request = 0 then DATA_LEN else unat (size_f request))"

text \<open>The pause between two packets of a burst. The division by the bandwidth is undefined
  for a port that reports none: \<open>None\<close>.\<close>

definition burst_delay_ms :: "'w env \<Rightarrow> pending_ftp \<Rightarrow> nat \<Rightarrow> 'w \<Rightarrow> u32 option" where
  "burst_delay_ms E request max_read w =
     (if valid_channel E (chan request) then
        (case comm_port E (chan request) w of
           None \<Rightarrow> Some 0
         | Some port \<Rightarrow>
             if \<not> flow_control_enabled port then
               (let bw = bw_in_bytes_per_second port;
                    pkt_size = (of_nat (payload_size E (chan request) w)
                                - of_nat (DATA_LEN - max_read) :: u16)
                in if bw = 0 then None else Some ((3000 * ucast pkt_size) div bw))
             else Some 0)
      else Some 0)"

text \<open>The loop \<^verbatim>\<open>for (uint32_t i = 0; i < transfer_size; i++)\<close>, from \<open>i\<close> on; the result is the
  reply and the state after the loop.\<close>

abbreviation (input) transfer_size :: nat where "transfer_size \<equiv> 500"

text \<open>The body of the loop in three parts. After a read of the bytes \<open>bs\<close> into \<^verbatim>\<open>reply.data\<close>,
  "don't send any old data": the rest of the data is zeroed unless the read filled it.\<close>

definition burst_fill :: "pending_ftp \<Rightarrow> u8 list \<Rightarrow> pending_ftp" where
  "burst_fill reply bs =
     (let read_bytes = length bs;
          reply = reply\<lparr>data := buf_write (data reply) 0 bs\<rparr>
      in if read_bytes \<noteq> DATA_LEN
         then reply\<lparr>data := take read_bytes (data reply) @ replicate (DATA_LEN - read_bytes) 0\<rparr>
         else reply)"

text \<open>The reply of turn \<open>i\<close>, as it is handed to \<^verbatim>\<open>ftp_push_replies\<close>.\<close>

definition burst_ack :: "pending_ftp \<Rightarrow> nat \<Rightarrow> nat \<Rightarrow> pending_ftp \<Rightarrow> u8 list \<Rightarrow> pending_ftp" where
  "burst_ack request max_read i reply bs =
     (let read_bytes = length bs
      in (burst_fill reply bs)
           \<lparr>opcode := FTP_OP_Ack,
            offset := offset request + of_nat i * of_nat max_read,
            burst_complete := (read_bytes < max_read \<or> i = transfer_size - 1),
            size_f := of_nat read_bytes\<rparr>)"

text \<open>After the send: "ensure the NACK which we send next is at the right offset" and
  "prep the reply to be used again".\<close>

definition burst_next :: "nat \<Rightarrow> u8 list \<Rightarrow> pending_ftp \<Rightarrow> pending_ftp" where
  "burst_next max_read bs reply =
     (let reply = (if length bs < max_read
                   then reply\<lparr>offset := offset reply + of_nat (length bs)\<rparr> else reply)
      in reply\<lparr>seq_number := seq_number reply + 1\<rparr>)"

function burst_loop ::
    "'w env \<Rightarrow> pending_ftp \<Rightarrow> nat \<Rightarrow> u32 \<Rightarrow> nat \<Rightarrow> pending_ftp \<Rightarrow> 'w sys
     \<Rightarrow> (pending_ftp \<times> 'w sys) option" where
  "burst_loop E request max_read pause i reply s =
     (if i < transfer_size then
        (case FS_read E (fd (ftp s)) (min DATA_LEN max_read) s of
           (None, s) \<Rightarrow> Some (ftp_error_at E s reply FailErrno, s)
         | (Some bs, s) \<Rightarrow>
             if length bs = 0 then Some (ftp_error_at E s (burst_fill reply bs) EndOfFile, s)
             else
               (let reply = burst_ack request max_read i reply bs
                in case ftp_push_replies E reply s of
                     None \<Rightarrow> None
                   | Some s \<Rightarrow>
                       burst_loop E request max_read pause (i + 1)
                         (burst_next max_read bs reply)
                         (s\<lparr>world := delay E (unat pause) (world s)\<rparr>)))
      else Some (reply, s))"
  by pat_completeness auto
termination
  by (relation "measure (\<lambda>(E, request, max_read, pause, i, reply, s). transfer_size - i)") auto

declare burst_loop.simps [simp del]

text \<open>The \<^verbatim>\<open>BurstReadFile\<close> case; the flag is \<^verbatim>\<open>skip_push_reply\<close>.\<close>

definition op_BurstReadFile ::
    "'w env \<Rightarrow> pending_ftp \<Rightarrow> pending_ftp \<Rightarrow> 'w sys \<Rightarrow> (bool \<times> pending_ftp \<times> 'w sys) option" where
  "op_BurstReadFile E request reply s =
     (let max_read = burst_max_read request
      in if fd (ftp s) = - 1 then Some (False, ftp_error_at E s reply FileNotFound, s)
         else if mode (ftp s) \<noteq> Read then Some (False, ftp_error_at E s reply Fail, s)
         else
           (let (r, s) = FS_lseek E (fd (ftp s)) (offset request) s
            in if r = - 1 then Some (False, ftp_error_at E s reply FailErrno, s)
               else
                 (case burst_delay_ms E request max_read (world s) of
                    None \<Rightarrow> None
                  | Some pause \<Rightarrow>
                      (case burst_loop E request max_read pause 0 reply s of
                         None \<Rightarrow> None
                       | Some (reply, s) \<Rightarrow> Some (opcode reply \<noteq> FTP_OP_Nack, reply, s)))))"

subsection \<open>The worker\<close>

text \<open>The \<^verbatim>\<open>switch\<close> on the opcode. The result is \<^verbatim>\<open>skip_push_reply\<close> (true also for the
  \<^verbatim>\<open>continue\<close> of the \<^verbatim>\<open>Ack\<close> and \<^verbatim>\<open>Nack\<close> cases, which send nothing), the reply and the state.\<close>

definition ftp_dispatch ::
    "'w env \<Rightarrow> u32 \<Rightarrow> pending_ftp \<Rightarrow> pending_ftp \<Rightarrow> 'w sys
     \<Rightarrow> (bool \<times> pending_ftp \<times> 'w sys) option" where
  "ftp_dispatch E now request reply s =
     (let op = opcode request
      in if op = FTP_OP_None then Some (False, reply\<lparr>opcode := FTP_OP_Ack\<rparr>, s)
         else if op = FTP_OP_TerminateSession \<or> op = FTP_OP_ResetSessions
           then Some (False, op_TerminateSession E reply s)
         else if op = FTP_OP_ListDirectory then Some (False, ftp_list_dir E request reply s)
         else if op = FTP_OP_OpenFileRO then Some (False, op_OpenFileRO E now request reply s)
         else if op = FTP_OP_ReadFile then Some (False, op_ReadFile E request reply s)
         else if op = FTP_OP_Ack \<or> op = FTP_OP_Nack then Some (True, reply, s)
         else if op = FTP_OP_OpenFileWO \<or> op = FTP_OP_CreateFile
           then Some (False, op_OpenFileWO E request reply s)
         else if op = FTP_OP_WriteFile then Some (False, op_WriteFile E request reply s)
         else if op = FTP_OP_CreateDirectory
           then Some (False, op_CreateDirectory E request reply s)
         else if op = FTP_OP_RemoveDirectory \<or> op = FTP_OP_RemoveFile
           then Some (False, op_RemoveFile E request reply s)
         else if op = FTP_OP_CalcFileCRC32 then Some (False, op_CalcFileCRC32 E request reply s)
         else if op = FTP_OP_BurstReadFile then op_BurstReadFile E request reply s
         else if op = FTP_OP_Rename then Some (False, op_Rename E request reply s)
         else Some (False, ftp_error_at E s reply Fail, s))"

text \<open>\<^verbatim>\<open>memset(&reply, 0, sizeof(reply))\<close>, and the reply as the worker sets it up for a request.\<close>

definition zero_reply :: pending_ftp where
  "zero_reply = \<lparr>offset = 0, chan = 0, seq_number = 0, opcode = 0, req_opcode = 0,
                 burst_complete = False, size_f = 0, session = 0, sysid = 0, compid = 0,
                 data = replicate DATA_LEN 0\<rparr>"

definition setup_reply :: "pending_ftp \<Rightarrow> pending_ftp" where
  "setup_reply request =
     zero_reply\<lparr>req_opcode := opcode request, session := session request,
                seq_number := seq_number request + 1, chan := chan request,
                sysid := sysid request, compid := compid request\<rparr>"

text \<open>The test "if it's a rerequest and we still have the last response". The operands of
  \<^verbatim>\<open>request.seq_number + 1 == reply.seq_number\<close> are promoted to \<^verbatim>\<open>int\<close>: the sum does not wrap.\<close>

definition is_rerequest :: "pending_ftp \<Rightarrow> pending_ftp \<Rightarrow> bool" where
  "is_rerequest request reply \<longleftrightarrow>
     sysid request = sysid reply \<and> compid request = compid reply
     \<and> session request = session reply
     \<and> uint (seq_number request) + 1 = uint (seq_number reply)"

definition push_and_keep ::
    "'w env \<Rightarrow> pending_ftp \<Rightarrow> 'w sys \<Rightarrow> (pending_ftp \<times> 'w sys) option" where
  "push_and_keep E reply s = map_option (Pair reply) (ftp_push_replies E reply s)"

text \<open>One turn of the \<^verbatim>\<open>while (true)\<close> of \<^verbatim>\<open>ftp_worker\<close>, for the request popped from the queue:
  from the reply kept from the turn before and the state, to the reply kept and the state.\<close>

definition ftp_worker_step ::
    "'w env \<Rightarrow> pending_ftp \<Rightarrow> pending_ftp \<Rightarrow> 'w sys \<Rightarrow> (pending_ftp \<times> 'w sys) option" where
  "ftp_worker_step E request reply s =
     (if is_rerequest request reply then push_and_keep E reply s
      else
        (let reply = setup_reply request
         in if unat (size_f request) > DATA_LEN
            then push_and_keep E (ftp_error_at E s reply InvalidDataSize) s
            else
              (let now = millis E (world s)
               in if uint (session request) \<noteq> current_session (ftp s)
                     \<and> (opcode request = FTP_OP_TerminateSession
                          \<or> opcode request = FTP_OP_ResetSessions)
                  then push_and_keep E (reply\<lparr>opcode := FTP_OP_Ack\<rparr>) s
                  else if fd (ftp s) \<noteq> - 1 \<and> uint (session request) \<noteq> current_session (ftp s)
                          \<and> now - last_send_ms (ftp s) < FTP_SESSION_TIMEOUT
                  then push_and_keep E (ftp_error_at E s reply InvalidSession) s
                  else
                    (let s = (if fd (ftp s) \<noteq> - 1
                                 \<and> uint (session request) \<noteq> current_session (ftp s)
                                 \<and> now - last_send_ms (ftp s) \<ge> FTP_SESSION_TIMEOUT
                              then close_session E s else s)
                     in case ftp_dispatch E now request reply s of
                          None \<Rightarrow> None
                        | Some (skip_push_reply, reply, s) \<Rightarrow>
                            if skip_push_reply then Some (reply, s)
                            else push_and_keep E reply s))))"

text \<open>Waiting for a request, \<^verbatim>\<open>while (... !ftp.requests->pop(request)) { hal.scheduler->delay(2); }\<close>,
  for a number of sleeps.\<close>

definition idle :: "'w env \<Rightarrow> nat \<Rightarrow> 'w sys \<Rightarrow> 'w sys" where
  "idle E n s = s\<lparr>world := (delay E 2 ^^ n) (world s)\<rparr>"

text \<open>The worker on the requests it pops, in their order, each with the number of sleeps spent
  waiting for it. It starts from a zeroed reply with \<^verbatim>\<open>reply.session = -1\<close> (255 in a byte), and
  from the session state of the spec's lifecycle: no file, no session.\<close>

fun ftp_worker ::
    "'w env \<Rightarrow> (nat \<times> pending_ftp) list \<Rightarrow> pending_ftp \<Rightarrow> 'w sys
     \<Rightarrow> (pending_ftp \<times> 'w sys) option" where
  "ftp_worker E [] reply s = Some (reply, s)"
| "ftp_worker E ((n, request) # requests) reply s =
     (case ftp_worker_step E request reply (idle E n s) of
        None \<Rightarrow> None
      | Some (reply, s) \<Rightarrow> ftp_worker E requests reply s)"

definition initial_reply :: pending_ftp where
  "initial_reply = zero_reply\<lparr>session := 255\<rparr>"

definition initial_ftp :: ftp_state where
  "initial_ftp = \<lparr>fd = - 1, mode = Read, current_session = - 1, last_send_ms = 0,
                  need_banner_send_mask = 0\<rparr>"

subsection \<open>Observations on the log and on the environment\<close>

text \<open>The replies handed to the transport, the oldest first.\<close>

fun sents :: "event list \<Rightarrow> pending_ftp list" where
  "sents [] = []"
| "sents (Sent r # es) = sents es @ [r]"
| "sents (e # es) = sents es"

text \<open>The results of the \<^verbatim>\<open>read\<close> calls, the oldest first.\<close>

fun reads :: "event list \<Rightarrow> u8 list option list" where
  "reads [] = []"
| "reads (FsRead f n r # es) = reads es @ [r]"
| "reads (e # es) = reads es"

text \<open>The calls on the filesystem.\<close>

fun is_fs_call :: "event \<Rightarrow> bool" where
  "is_fs_call (Sent r) = False"
| "is_fs_call Banner = False"
| "is_fs_call e = True"

definition fs_calls :: "event list \<Rightarrow> event list" where
  "fs_calls es = filter is_fs_call es"

text \<open>The file handles that are open after the calls of a log: those an \<^verbatim>\<open>open\<close> has returned
  and no \<^verbatim>\<open>close\<close> has been given since. "At most one handle at any instant" is a property of
  the log and of each of its earlier stages.\<close>

fun open_handles :: "event list \<Rightarrow> int list" where
  "open_handles [] = []"
| "open_handles (FsOpen path flags r # es) =
     (if r = - 1 then open_handles es else r # open_handles es)"
| "open_handles (FsClose f # es) = remove1 f (open_handles es)"
| "open_handles (e # es) = open_handles es"

fun one_open_always :: "event list \<Rightarrow> bool" where
  "one_open_always [] = True"
| "one_open_always (e # es) = (length (open_handles (e # es)) \<le> 1 \<and> one_open_always es)"

text \<open>The calls that neither open nor close a file, and the steps that only make such calls and
  leave the file, its mode and its owner as they are.\<close>

fun quiet :: "event \<Rightarrow> bool" where
  "quiet (FsOpen path flags r) = False"
| "quiet (FsClose f) = False"
| "quiet e = True"

definition keeps_session :: "'w sys \<Rightarrow> 'w sys \<Rightarrow> bool" where
  "keeps_session s s' \<longleftrightarrow>
     fd (ftp s') = fd (ftp s) \<and> mode (ftp s') = mode (ftp s)
     \<and> current_session (ftp s') = current_session (ftp s)
     \<and> (\<exists>es. log s' = es @ log s \<and> list_all quiet es)"

text \<open>Replies that agree on the fields the worker sets up from the request.\<close>

definition same_header :: "pending_ftp \<Rightarrow> pending_ftp \<Rightarrow> bool" where
  "same_header r r' \<longleftrightarrow>
     seq_number r' = seq_number r \<and> req_opcode r' = req_opcode r \<and> session r' = session r
     \<and> chan r' = chan r \<and> sysid r' = sysid r \<and> compid r' = compid r"

text \<open>The invariant of the session state: a file is open exactly when a session owns it, and
  the handles the filesystem has open are that file's and no other, now and at all times
  before.\<close>

definition session_inv :: "'w sys \<Rightarrow> bool" where
  "session_inv s \<longleftrightarrow>
     (fd (ftp s) \<noteq> - 1 \<longleftrightarrow> current_session (ftp s) \<noteq> - 1)
     \<and> open_handles (log s) = (if fd (ftp s) = - 1 then [] else [fd (ftp s)])
     \<and> one_open_always (log s)"

text \<open>An environment lets the worker through when the transport, retried every 2 ms, has room
  after finitely many sleeps, from any state of the world, and when no port without flow control
  reports a bandwidth of zero.\<close>

definition tx_ready :: "'w env \<Rightarrow> 'w \<Rightarrow> bool" where
  "tx_ready E w \<longleftrightarrow> last_txbuf_is_greater E 33 w \<and> have_payload_space E w"

definition env_live :: "'w env \<Rightarrow> bool" where
  "env_live E \<longleftrightarrow>
     (\<forall>w. \<exists>n. tx_ready E ((delay E 2 ^^ n) w))
     \<and> (\<forall>c w p. comm_port E c w = Some p \<and> \<not> flow_control_enabled p
            \<longrightarrow> bw_in_bytes_per_second p \<noteq> 0)"

text \<open>What a run of the burst loop from turn \<open>i\<close> has done, in terms of the results \<open>rds\<close> of its
  reads and of the replies \<open>rs\<close> it has sent, both in order: every reply answers the read of its
  turn, which returned bytes; the loop has either sent a reply in each turn up to the last, or
  stopped at a read that failed or returned nothing, with a Nack as the reply it leaves.\<close>

definition burst_ok ::
  "pending_ftp \<Rightarrow> nat \<Rightarrow> nat \<Rightarrow> pending_ftp \<Rightarrow> pending_ftp \<Rightarrow> u8 list option list \<Rightarrow> pending_ftp list \<Rightarrow> bool" where
  "burst_ok rq m i reply r' rds rs \<longleftrightarrow>
     length rds \<le> 500 - i \<and> length rs \<le> length rds
     \<and> (\<forall>k<length rs. \<exists>bs. rds ! k = Some bs \<and> bs \<noteq> [] \<and> length bs \<le> min 239 m
           \<and> opcode (rs ! k) = FTP_OP_Ack
           \<and> offset (rs ! k) = offset rq + of_nat (i + k) * of_nat m
           \<and> size_f (rs ! k) = of_nat (length bs)
           \<and> burst_complete (rs ! k) = (length bs < m \<or> i + k = 499)
           \<and> seq_number (rs ! k) = seq_number reply + of_nat k
           \<and> req_opcode (rs ! k) = req_opcode reply)
     \<and> ((length rds = length rs \<and> i + length rs = 500 \<and> opcode r' = (if rs = [] then opcode reply else FTP_OP_Ack))
         \<or> (length rds = length rs + 1 \<and> opcode r' = FTP_OP_Nack
             \<and> (rds ! length rs = None
                 \<or> (rds ! length rs = Some [] \<and> data r' ! 0 = err_byte EndOfFile \<and> size_f r' = 1))))
     \<and> seq_number r' = seq_number reply + of_nat (length rs)
     \<and> req_opcode r' = req_opcode reply"

subsection \<open>A reference environment\<close>

text \<open>A small environment on which the theorems are exhibited at concrete inputs: a clock
  and a slow scheduler, which wakes a sleeper a full second later however short the sleep; one
  file whose content every path opens (as handle 3) with a read position; a directory of two
  entries behind every path; a transport that always has room; \<^verbatim>\<open>errno\<close> 5.\<close>

record demo_world =
  now_ms :: u32
  content :: "u8 list"
  pos :: nat

definition demo_env :: "demo_world env" where
  "demo_env =
     \<lparr>millis = now_ms,
      delay = (\<lambda>n w. w\<lparr>now_ms := now_ms w + 1000\<rparr>),
      errno_of = (\<lambda>w. 5),
      last_txbuf_is_greater = (\<lambda>n w. True),
      have_payload_space = (\<lambda>w. True),
      mavlink_send = (\<lambda>c sy co bs w. w),
      send_banner = (\<lambda>w. w),
      valid_channel = (\<lambda>c. c < 8),
      comm_port = (\<lambda>c w. None),
      payload_size = (\<lambda>c w. 263),
      fs_open = (\<lambda>path flags w. (3, w\<lparr>pos := 0\<rparr>)),
      fs_close = (\<lambda>f w. w),
      fs_stat = (\<lambda>path w. (Some \<lparr>st_size = length (content w), st_isdir = False\<rparr>, w)),
      fs_lseek = (\<lambda>f off w. (uint off, w\<lparr>pos := unat off\<rparr>)),
      fs_read = (\<lambda>f n w. (Some (take n (drop (pos w) (content w))),
                           w\<lparr>pos := pos w + length (take n (drop (pos w) (content w)))\<rparr>)),
      fs_write = (\<lambda>f bs w. (int (length bs), w)),
      fs_mkdir = (\<lambda>path w. (0, w)),
      fs_unlink = (\<lambda>path w. (0, w)),
      fs_rename = (\<lambda>old new w. (0, w)),
      fs_crc32 = (\<lambda>path w. (Some 0, w)),
      fs_opendir = (\<lambda>path w. (Some [\<lparr>d_type = DT_DIR, d_name = bytes_of ''d''\<rparr>,
                                       \<lparr>d_type = DT_REG, d_name = bytes_of ''f''\<rparr>], w)),
      fs_closedir = (\<lambda>w. w),
      have_dirent_dtype = True,
      max_name_len = 255\<rparr>"

definition demo_sys :: "u32 \<Rightarrow> u8 list \<Rightarrow> demo_world sys" where
  "demo_sys t bs = \<lparr>ftp = initial_ftp, world = \<lparr>now_ms = t, content = bs, pos = 0\<rparr>, log = []\<rparr>"

text \<open>A request with the given opcode, session, sequence number, size, offset and the bytes
  that start its data, from system 1, component 1, on channel 0.\<close>

definition mk_request :: "u8 \<Rightarrow> u8 \<Rightarrow> u16 \<Rightarrow> u8 \<Rightarrow> u32 \<Rightarrow> u8 list \<Rightarrow> pending_ftp" where
  "mk_request op sess sq sz off bs =
     \<lparr>offset = off, chan = 0, seq_number = sq, opcode = op, req_opcode = 0,
      burst_complete = False, size_f = sz, session = sess, sysid = 1, compid = 1,
      data = take DATA_LEN (bs @ replicate DATA_LEN 0)\<rparr>"

text \<open>A conversation: session 7 opens a file and reads it in a burst; after four sleeps of the
  worker, 4000 ms without a reply, session 9 opens a file for writing; session 7 terminates;
  session 9 tries to create a second file.\<close>

definition demo_session :: "(nat \<times> pending_ftp) list" where
  "demo_session =
     [(0, mk_request FTP_OP_OpenFileRO 7 10 2 0 (bytes_of ''/x'')),
      (1, mk_request FTP_OP_BurstReadFile 7 11 2 0 []),
      (4, mk_request FTP_OP_OpenFileWO 9 1 2 0 (bytes_of ''/y'')),
      (1, mk_request FTP_OP_TerminateSession 7 12 0 0 []),
      (1, mk_request FTP_OP_CreateFile 9 2 2 0 (bytes_of ''/z''))]"

subsection \<open>Properties of the name-length check and of error replies\<close>

lemma strnlen_le: "strnlen s n \<le> n"
  unfolding strnlen_def
  by (metis length_take length_takeWhile_le min.cobounded2 order_trans)

lemma size_t_diff_one:
  assumes "n \<le> DATA_LEN"
  shows "((ucast (sz :: u8) :: size_t) - of_nat n = 1) \<longleftrightarrow> unat sz = n + 1"
proof -
  have n: "unat (of_nat n :: size_t) = n"
    using assms by (simp add: unat_of_nat)
  have s: "unat (ucast sz :: size_t) = unat sz"
    by transfer simp
  have "((ucast sz :: size_t) - of_nat n = 1) \<longleftrightarrow> (ucast sz :: size_t) = of_nat n + 1"
    by (metis add.commute diff_add_cancel add_diff_cancel_left')
  also have "\<dots> \<longleftrightarrow> unat (ucast sz :: size_t) = unat (of_nat n + 1 :: size_t)"
    by (simp add: word_unat_eq_iff)
  also have "unat (of_nat n + 1 :: size_t) = n + 1"
    using assms by (simp add: unat_word_ariths unat_of_nat)
  finally show ?thesis using s by simp
qed

text \<open>C6. The name-length check accepts a request exactly when its size is positive and
  either equals \<^verbatim>\<open>strnlen(data, 239)\<close>, or exceeds it by one while the last byte of the data
  array, \<^verbatim>\<open>data[238]\<close>, is zero.\<close>

theorem ftp_check_name_len_iff:
  "ftp_check_name_len request \<longleftrightarrow>
     0 < unat (size_f request) \<and>
     (strnlen (data request) 239 = unat (size_f request)
      \<or> (unat (size_f request) = strnlen (data request) 239 + 1 \<and> data request ! 238 = 0))"
proof -
  have "strnlen (data request) 239 \<le> 239" by (rule strnlen_le)
  then show ?thesis
    unfolding ftp_check_name_len_def Let_def
    by (auto simp: size_t_diff_one unat_gt_0)
qed

text \<open>C9. Every failure reply built by \<^verbatim>\<open>ftp_error\<close> is a Nack. For an error other than
  \<open>FailErrno\<close> its first data byte is the error code and its size is 1. For \<open>FailErrno\<close> the host
  error is translated: \<open>EEXIST\<close> gives \<open>FileExists\<close> with size 1, \<open>ENOENT\<close> gives \<open>FileNotFound\<close>
  with size 1, and any other \<^verbatim>\<open>errno\<close> gives \<open>FailErrno\<close> in the first byte, the \<^verbatim>\<open>errno\<close> value
  (as a byte: exactly the value when it is below 256) in the second, and size 2.\<close>

theorem ftp_error_reply:
  assumes "length (data response) = DATA_LEN"
  shows "opcode (ftp_error errno response error) = FTP_OP_Nack
    \<and> (error \<noteq> FailErrno \<longrightarrow>
         data (ftp_error errno response error) ! 0 = err_byte error
         \<and> size_f (ftp_error errno response error) = 1)
    \<and> (error = FailErrno \<and> errno = EEXIST \<longrightarrow>
         data (ftp_error errno response error) ! 0 = err_byte FileExists
         \<and> size_f (ftp_error errno response error) = 1)
    \<and> (error = FailErrno \<and> errno = ENOENT \<longrightarrow>
         data (ftp_error errno response error) ! 0 = err_byte FileNotFound
         \<and> size_f (ftp_error errno response error) = 1)
    \<and> (error = FailErrno \<and> errno \<noteq> EEXIST \<and> errno \<noteq> ENOENT \<longrightarrow>
         data (ftp_error errno response error) ! 0 = err_byte FailErrno
         \<and> data (ftp_error errno response error) ! 1 = word_of_int errno
         \<and> (0 \<le> errno \<and> errno < 256 \<longrightarrow> uint (data (ftp_error errno response error) ! 1) = errno)
         \<and> size_f (ftp_error errno response error) = 2)"
proof -
  have small: "0 \<le> errno \<Longrightarrow> errno < 256 \<Longrightarrow> uint (word_of_int errno :: u8) = errno"
    by (simp add: uint_word_of_int)
  show ?thesis
    using assms small by (simp add: ftp_error_def Let_def EEXIST_def ENOENT_def)
qed

theorem ftp_error_reply_witness:
  "length (data zero_reply) = DATA_LEN
   \<and> opcode (ftp_error 5 zero_reply FailErrno) = FTP_OP_Nack
   \<and> data (ftp_error 5 zero_reply FailErrno) ! 0 = 2
   \<and> data (ftp_error 5 zero_reply FailErrno) ! 1 = 5
   \<and> uint (data (ftp_error 5 zero_reply FailErrno) ! 1) = 5
   \<and> size_f (ftp_error 5 zero_reply FailErrno) = 2
   \<and> data (ftp_error 17 zero_reply FailErrno) ! 0 = 8
   \<and> size_f (ftp_error 2 zero_reply FailErrno) = 1
   \<and> data (ftp_error 5 zero_reply InvalidSession) ! 0 = 4"
  using ftp_error_reply [of zero_reply 5 FailErrno] ftp_error_reply [of zero_reply EEXIST FailErrno]
    ftp_error_reply [of zero_reply ENOENT FailErrno] ftp_error_reply [of zero_reply 5 InvalidSession]
  by (simp add: zero_reply_def EEXIST_def ENOENT_def)

subsection \<open>The check of the Rename payload\<close>

lemma size_t_diff:
  assumes "n + k < 2 ^ 32"
  shows "((ucast (sz :: u8) :: size_t) - of_nat n = of_nat k) \<longleftrightarrow> unat sz = n + k"
proof -
  have s: "unat (ucast sz :: size_t) = unat sz"
    by transfer simp
  have "((ucast sz :: size_t) - of_nat n = of_nat k) \<longleftrightarrow> (ucast sz :: size_t) = of_nat (n + k)"
    by (metis add.commute diff_add_cancel add_diff_cancel_left' of_nat_add)
  also have "\<dots> \<longleftrightarrow> unat (ucast sz :: size_t) = unat (of_nat (n + k) :: size_t)"
    by (simp add: word_unat_eq_iff)
  also have "unat (of_nat (n + k) :: size_t) = n + k"
    unfolding unat_of_nat using assms by simp
  finally show ?thesis using s by simp
qed

lemma size_t_sum_eq:
  assumes "n < 2 ^ 32"
  shows "((of_nat n :: size_t) = ucast (sz :: u8)) \<longleftrightarrow> n = unat sz"
  using size_t_diff [of n 0 sz] assms by auto

lemma rename_len_bound: "rename_len1 request + rename_len2 request \<le> 238"
proof -
  have "rename_len1 request \<le> 237"
    unfolding rename_len1_def using strnlen_le [of _ 237] by simp
  moreover have "rename_len2 request \<le> 239 - (rename_len1 request + 1)"
    unfolding rename_len2_def by (rule strnlen_le)
  ultimately show ?thesis by arith
qed

lemma rename_rejected_iff:
  "rename_rejected request \<longleftrightarrow>
     \<not> (data request ! rename_len1 request = 0
        \<and> (rename_len1 request + rename_len2 request + 1 = unat (size_f request)
           \<or> (unat (size_f request) = rename_len1 request + rename_len2 request + 2
               \<and> data request ! 238 = 0)))"
proof -
  let ?n = "rename_len1 request + rename_len2 request"
  have b: "?n \<le> 238" by (rule rename_len_bound)
  have d2: "((ucast (size_f request) :: size_t)
              - (of_nat (rename_len1 request) + of_nat (rename_len2 request)) = 2)
      \<longleftrightarrow> unat (size_f request) = ?n + 2"
    using size_t_diff [of ?n 2 "size_f request"] b by simp
  have e1: "((of_nat (rename_len1 request) + of_nat (rename_len2 request) + 1 :: size_t)
              = ucast (size_f request))
      \<longleftrightarrow> ?n + 1 = unat (size_f request)"
    using size_t_sum_eq [of "?n + 1" "size_f request"] b by (simp add: ac_simps)
  have z: "size_f request = 0 \<longleftrightarrow> unat (size_f request) = 0"
    by (simp add: unat_eq_0)
  show ?thesis
    unfolding rename_rejected_def Let_def d2 e1 z by auto
qed

lemma ftp_error_nack:
  "opcode (ftp_error e r err) = FTP_OP_Nack"
  by (simp add: ftp_error_def Let_def)

lemma ftp_error_simple:
  "err \<noteq> FailErrno \<Longrightarrow> size_f (ftp_error e r err) = 1
     \<and> (data r \<noteq> [] \<longrightarrow> data (ftp_error e r err) ! 0 = err_byte err)"
  by (simp add: ftp_error_def Let_def)

text \<open>C7. With \<open>len1 = strnlen(data, 237)\<close> and \<open>len2 = strnlen(data+len1+1, 239-len1-1)\<close>, the
  Rename case accepts the payload, and then calls \<^verbatim>\<open>rename\<close> on the two names, exactly when
  \<open>data[len1] = 0\<close> and either \<open>len1+len2+1 = size\<close>, or \<open>size - (len1+len2) = 2\<close> and
  \<open>data[238] = 0\<close>; otherwise it calls nothing and the reply is a Nack with \<open>InvalidDataSize\<close>.
  The payload \<^verbatim>\<open>"a\0b\0"\<close> with size 4 and the payload \<^verbatim>\<open>"a\0b"\<close> with size 3 are accepted;
  \<^verbatim>\<open>"ab"\<close> with size 2 is rejected.\<close>

theorem op_Rename_check:
  "(let len1 = strnlen (data request) 237;
        len2 = strnlen (drop (len1 + 1) (data request)) (239 - len1 - 1);
        accepted = (data request ! len1 = 0
                    \<and> (len1 + len2 + 1 = unat (size_f request)
                        \<or> (int (unat (size_f request)) - int (len1 + len2) = 2
                            \<and> data request ! 238 = 0)))
    in (rename_rejected request \<longleftrightarrow> \<not> accepted)
       \<and> (accepted \<longrightarrow>
             log (snd (op_Rename E request reply s))
               = FsRename (cstr ((data request)[238 := 0]))
                          (cstr (drop (len1 + 1) ((data request)[238 := 0]))) # log s
             \<and> (opcode (fst (op_Rename E request reply s)) = FTP_OP_Ack
                 \<or> (\<exists>e. fst (op_Rename E request reply s) = ftp_error e reply FailErrno)))
       \<and> (\<not> accepted \<longrightarrow>
             op_Rename E request reply s = (ftp_error_at E s reply InvalidDataSize, s)
             \<and> opcode (fst (op_Rename E request reply s)) = FTP_OP_Nack
             \<and> size_f (fst (op_Rename E request reply s)) = 1
             \<and> (data reply \<noteq> [] \<longrightarrow>
                  data (fst (op_Rename E request reply s)) ! 0 = err_byte InvalidDataSize)))
   \<and> \<not> rename_rejected (mk_request FTP_OP_Rename sess sq 4 off
                           (bytes_of ''a'' @ [0] @ bytes_of ''b'' @ [0]))
   \<and> \<not> rename_rejected (mk_request FTP_OP_Rename sess sq 3 off
                           (bytes_of ''a'' @ [0] @ bytes_of ''b''))
   \<and> rename_rejected (mk_request FTP_OP_Rename sess sq 2 off (bytes_of ''ab''))"
proof -
  have iff: "rename_rejected request \<longleftrightarrow>
     \<not> (data request ! rename_len1 request = 0
        \<and> (rename_len1 request + rename_len2 request + 1 = unat (size_f request)
           \<or> (int (unat (size_f request)) - int (rename_len1 request + rename_len2 request) = 2
               \<and> data request ! 238 = 0)))"
  proof -
    have "(int (unat (size_f request)) - int (rename_len1 request + rename_len2 request) = 2)
        \<longleftrightarrow> unat (size_f request) = rename_len1 request + rename_len2 request + 2"
      by linarith
    then show ?thesis
      unfolding rename_rejected_iff by (simp only:)
  qed
  have acc: "\<not> rename_rejected request \<Longrightarrow>
      log (snd (op_Rename E request reply s))
        = FsRename (cstr ((data request)[238 := 0]))
                   (cstr (drop (rename_len1 request + 1) ((data request)[238 := 0]))) # log s
      \<and> (opcode (fst (op_Rename E request reply s)) = FTP_OP_Ack
          \<or> (\<exists>e. fst (op_Rename E request reply s) = ftp_error e reply FailErrno))"
    by (auto simp: op_Rename_def FS_rename_def Let_def ftp_error_at_def split: prod.splits)
  have rej: "rename_rejected request \<Longrightarrow>
      op_Rename E request reply s = (ftp_error_at E s reply InvalidDataSize, s)
      \<and> opcode (fst (op_Rename E request reply s)) = FTP_OP_Nack
      \<and> size_f (fst (op_Rename E request reply s)) = 1
      \<and> (data reply \<noteq> [] \<longrightarrow>
           data (fst (op_Rename E request reply s)) ! 0 = err_byte InvalidDataSize)"
    using ftp_error_simple [of InvalidDataSize "errno_of E (world s)" reply]
    by (simp add: op_Rename_def ftp_error_at_def ftp_error_nack)
  have ex1: "\<not> rename_rejected (mk_request FTP_OP_Rename sess sq 4 off
                           (bytes_of ''a'' @ [0] @ bytes_of ''b'' @ [0]))"
    by (simp add: rename_rejected_iff rename_len1_def rename_len2_def strnlen_def
        mk_request_def bytes_of_def)
  have ex2: "\<not> rename_rejected (mk_request FTP_OP_Rename sess sq 3 off
                           (bytes_of ''a'' @ [0] @ bytes_of ''b''))"
    by (simp add: rename_rejected_iff rename_len1_def rename_len2_def strnlen_def
        mk_request_def bytes_of_def)
  have ex3: "rename_rejected (mk_request FTP_OP_Rename sess sq 2 off (bytes_of ''ab''))"
    by (simp add: rename_rejected_iff rename_len1_def rename_len2_def strnlen_def
        mk_request_def bytes_of_def)
  have l1: "strnlen (data request) 237 = rename_len1 request"
    by (simp add: rename_len1_def)
  have l2: "strnlen (drop (rename_len1 request + 1) (data request)) (239 - rename_len1 request - 1)
      = rename_len2 request"
    by (simp add: rename_len2_def)
  show ?thesis
    unfolding Let_def l1 l2 using iff acc rej ex1 ex2 ex3 by blast
qed

lemma replicate_update_same: "(replicate n x)[i := x] = replicate n x"
  by (induction n arbitrary: i) (auto split: nat.split)

text \<open>The three payloads through the Rename case on the reference environment, whose \<^verbatim>\<open>rename\<close>
  succeeds: two Acks after a call of \<^verbatim>\<open>rename("a", "b")\<close>, and a Nack with no call.\<close>

theorem op_Rename_check_witness:
  "op_Rename demo_env (mk_request FTP_OP_Rename 7 10 4 0 (bytes_of ''a'' @ [0] @ bytes_of ''b'' @ [0]))
       zero_reply (demo_sys 100 [])
     = (zero_reply\<lparr>opcode := FTP_OP_Ack\<rparr>,
        (demo_sys 100 [])\<lparr>log := [FsRename (bytes_of ''a'') (bytes_of ''b'')]\<rparr>)
   \<and> op_Rename demo_env (mk_request FTP_OP_Rename 7 10 3 0 (bytes_of ''a'' @ [0] @ bytes_of ''b''))
       zero_reply (demo_sys 100 [])
     = (zero_reply\<lparr>opcode := FTP_OP_Ack\<rparr>,
        (demo_sys 100 [])\<lparr>log := [FsRename (bytes_of ''a'') (bytes_of ''b'')]\<rparr>)
   \<and> op_Rename demo_env (mk_request FTP_OP_Rename 7 10 2 0 (bytes_of ''ab''))
       zero_reply (demo_sys 100 [])
     = (ftp_error 5 zero_reply InvalidDataSize, demo_sys 100 [])"
  using op_Rename_check [of "mk_request FTP_OP_Rename 7 10 2 0 (bytes_of ''ab'')"
      demo_env zero_reply "demo_sys 100 []" 7 10 0]
  by (simp add: op_Rename_def mk_request_def demo_sys_def demo_env_def FS_rename_def
      ftp_error_at_def Let_def zero_reply_def bytes_of_def cstr_def
      rename_rejected_iff rename_len1_def rename_len2_def strnlen_def
      replicate_update_same takeWhile_replicate)

subsection \<open>The reply pump\<close>

lemma send_ftp_reply_eq:
  "send_ftp_reply E r s =
     (if tx_ready E (world s)
      then (True, s\<lparr>world := mavlink_send E (chan r) (sysid r) (compid r) (ftp_payload r) (world s),
                    log := Sent r # log s\<rparr>)
      else (False, s))"
  by (simp add: send_ftp_reply_def tx_ready_def)

lemma send_retry_some:
  assumes "send_retry E r s = Some s'"
  shows "ftp s' = ftp s \<and> log s' = Sent r # log s"
proof (rule send_retry.raw_induct
    [where P = "\<lambda>E r s s'. ftp s' = ftp s \<and> log s' = Sent r # log s", OF _ assms])
  fix sr :: "'a env \<Rightarrow> pending_ftp \<Rightarrow> 'a sys \<Rightarrow> 'a sys option" and E reply s y
  assume IH: "\<And>E reply s y. sr E reply s = Some y \<Longrightarrow> ftp y = ftp s \<and> log y = Sent reply # log s"
  assume body: "(if fst (send_ftp_reply E reply s) then Some (snd (send_ftp_reply E reply s))
      else sr E reply ((snd (send_ftp_reply E reply s))
             \<lparr>world := delay E 2 (world (snd (send_ftp_reply E reply s)))\<rparr>)) = Some y"
  show "ftp y = ftp s \<and> log y = Sent reply # log s"
  proof (cases "tx_ready E (world s)")
    case True
    with body show ?thesis by (auto simp: send_ftp_reply_eq)
  next
    case False
    with body have "sr E reply (s\<lparr>world := delay E 2 (world s)\<rparr>) = Some y"
      by (simp add: send_ftp_reply_eq)
    from IH [OF this] show ?thesis by simp
  qed
qed

lemma send_retry_ready:
  "tx_ready E ((delay E 2 ^^ n) (world s)) \<Longrightarrow> \<exists>s'. send_retry E r s = Some s'"
proof (induction n arbitrary: s)
  case 0
  then show ?case
    by (subst send_retry.simps) (simp add: send_ftp_reply_eq)
next
  case (Suc n)
  show ?case
  proof (cases "tx_ready E (world s)")
    case True
    then show ?thesis
      by (subst send_retry.simps) (simp add: send_ftp_reply_eq)
  next
    case False
    have "tx_ready E ((delay E 2 ^^ n) (world (s\<lparr>world := delay E 2 (world s)\<rparr>)))"
      using Suc.prems by (simp add: funpow_swap1)
    from Suc.IH [OF this] obtain s' where "send_retry E r (s\<lparr>world := delay E 2 (world s)\<rparr>) = Some s'"
      by blast
    with False show ?thesis
      by (subst send_retry.simps) (simp add: send_ftp_reply_eq)
  qed
qed

lemma push_some:
  assumes "ftp_push_replies E r s = Some s'"
  shows "fd (ftp s') = fd (ftp s) \<and> mode (ftp s') = mode (ftp s)
    \<and> current_session (ftp s') = current_session (ftp s)
    \<and> last_send_ms (ftp s') = (if req_opcode r = FTP_OP_TerminateSession then 0 else millis E (world s))
    \<and> (log s' = Sent r # log s \<or> log s' = Banner # Sent r # log s)"
proof -
  from assms obtain s1 where
    s1: "send_retry E r (s\<lparr>ftp := (ftp s)\<lparr>last_send_ms := millis E (world s)\<rparr>\<rparr>) = Some s1"
    by (auto simp: ftp_push_replies_def split: option.splits)
  from send_retry_some [OF s1] have
    f: "ftp s1 = (ftp s)\<lparr>last_send_ms := millis E (world s)\<rparr>" and l: "log s1 = Sent r # log s"
    by simp_all
  from assms s1 f l show ?thesis
    by (auto simp: ftp_push_replies_def Let_def split: if_splits)
qed

lemma push_live:
  assumes "env_live E"
  shows "\<exists>s'. ftp_push_replies E r s = Some s'"
proof -
  from assms obtain n where "tx_ready E ((delay E 2 ^^ n) (world s))"
    unfolding env_live_def by blast
  then have "tx_ready E ((delay E 2 ^^ n)
      (world (s\<lparr>ftp := (ftp s)\<lparr>last_send_ms := millis E (world s)\<rparr>\<rparr>)))"
    by simp
  from send_retry_ready [OF this] obtain s1 where
    "send_retry E r (s\<lparr>ftp := (ftp s)\<lparr>last_send_ms := millis E (world s)\<rparr>\<rparr>) = Some s1"
    by blast
  then show ?thesis
    by (simp add: ftp_push_replies_def Let_def)
qed

subsection \<open>Steps that keep the session\<close>

lemma keeps_session_refl: "keeps_session s s"
  by (auto simp: keeps_session_def intro: exI [of _ "[]"])

lemma keeps_session_trans:
  "keeps_session s s' \<Longrightarrow> keeps_session s' s'' \<Longrightarrow> keeps_session s s''"
  unfolding keeps_session_def
  by (elim conjE exE) (auto intro!: exI [of _ "_ @ _"])

lemma quiet_open_handles:
  "list_all quiet es \<Longrightarrow> open_handles (es @ l) = open_handles l"
  by (induction es) (auto elim: quiet.elims)

lemma one_open_length: "one_open_always l \<Longrightarrow> length (open_handles l) \<le> 1"
  by (cases l) auto

lemma quiet_one_open:
  "list_all quiet es \<Longrightarrow> one_open_always l \<Longrightarrow> one_open_always (es @ l)"
proof (induction es)
  case Nil
  then show ?case by simp
next
  case (Cons e es)
  have "open_handles (e # es @ l) = open_handles l"
    using quiet_open_handles [of "e # es" l] Cons.prems by simp
  moreover have "length (open_handles l) \<le> 1"
    using Cons.prems one_open_length by blast
  moreover have "one_open_always (es @ l)"
    using Cons by simp
  ultimately show ?case by simp
qed

lemma keeps_session_inv:
  assumes "keeps_session s s'" "session_inv s"
  shows "session_inv s'"
proof -
  from assms(1) obtain es where es: "log s' = es @ log s" "list_all quiet es"
    and f: "fd (ftp s') = fd (ftp s)" "current_session (ftp s') = current_session (ftp s)"
    unfolding keeps_session_def by blast
  from assms(2) es f show ?thesis
    unfolding session_inv_def by (simp add: quiet_open_handles quiet_one_open)
qed

lemma push_keeps:
  "ftp_push_replies E r s = Some s' \<Longrightarrow> keeps_session s s'"
  by (drule push_some) (auto simp: keeps_session_def)

lemma push_sents:
  "ftp_push_replies E r s = Some s' \<Longrightarrow> sents (log s') = sents (log s) @ [r]"
  by (drule push_some) auto

lemma push_reads:
  "ftp_push_replies E r s = Some s' \<Longrightarrow> reads (log s') = reads (log s)"
  by (drule push_some) auto

lemma push_fs_calls:
  "ftp_push_replies E r s = Some s' \<Longrightarrow> fs_calls (log s') = fs_calls (log s)"
  by (drule push_some) (auto simp: fs_calls_def)

subsection \<open>The cases of the dispatcher keep the header and send nothing\<close>

lemmas FS_defs = FS_open_def FS_close_def FS_stat_def FS_lseek_def FS_read_def FS_write_def
  FS_mkdir_def FS_unlink_def FS_rename_def FS_crc32_def FS_opendir_def FS_closedir_def

lemma same_header_refl: "same_header r r"
  by (simp add: same_header_def)

lemma same_header_trans: "same_header r r' \<Longrightarrow> same_header r' r'' \<Longrightarrow> same_header r r''"
  by (simp add: same_header_def)

lemma same_header_error: "same_header r r' \<Longrightarrow> same_header r (ftp_error_at E s r' err)"
  by (simp add: same_header_def ftp_error_at_def ftp_error_def Let_def)

lemma same_header_data: "same_header r r' \<Longrightarrow> same_header r (r'\<lparr>data := d\<rparr>)"
  by (simp add: same_header_def)

lemma keeps_log_event:
  "quiet e \<Longrightarrow> keeps_session s (s\<lparr>world := w, log := e # log s\<rparr>)"
  unfolding keeps_session_def by (auto intro: exI [of _ "[e]"])

lemma FS_stat_keeps: "FS_stat E p s = (r, s') \<Longrightarrow> keeps_session s s' \<and> sents (log s') = sents (log s)"
  by (auto simp: FS_stat_def keeps_log_event split: prod.splits)

lemma gen_dir_entry_keeps:
  "gen_dir_entry E space path entry s = (r, s') \<Longrightarrow>
     keeps_session s s' \<and> sents (log s') = sents (log s)"
  by (auto simp: gen_dir_entry_def Let_def keeps_session_refl
      split: if_splits prod.splits option.splits dest: FS_stat_keeps)

lemma skip_entries_keeps:
  "skip_entries E path off entries response s = (r, response', s') \<Longrightarrow>
     keeps_session s s' \<and> sents (log s') = sents (log s) \<and> same_header response response'"
proof (induction entries arbitrary: off response s)
  case Nil
  then show ?case by (auto simp: keeps_session_refl same_header_refl split: if_splits)
next
  case (Cons entry rest)
  show ?case
  proof (cases "off > 0")
    case False
    with Cons.prems show ?thesis by (auto simp: keeps_session_refl same_header_refl)
  next
    case True
    obtain n st s1 where g: "gen_dir_entry E DATA_LEN path entry s = ((n, st), s1)"
      by (metis prod.exhaust)
    let ?resp = "response\<lparr>data := buf_write (data response) 0 st\<rparr>"
    from Cons.prems True g obtain off' where
      "skip_entries E path off' rest ?resp s1 = (r, response', s')"
      by (auto simp: Let_def split: if_splits)
    from Cons.IH [OF this] gen_dir_entry_keeps [OF g] show ?thesis
      by (auto intro: keeps_session_trans simp: same_header_def)
  qed
qed

lemma pack_entries_keeps:
  "pack_entries E path entries index response s = (index', response', s') \<Longrightarrow>
     keeps_session s s' \<and> sents (log s') = sents (log s) \<and> same_header response response'"
proof (induction entries arbitrary: index response s)
  case Nil
  then show ?case by (auto simp: keeps_session_refl same_header_refl)
next
  case (Cons entry rest)
  obtain n st s1 where g: "gen_dir_entry E (DATA_LEN - unat index) path entry s = ((n, st), s1)"
    by (metis prod.exhaust)
  let ?resp = "response\<lparr>data := buf_write (data response) (unat index) st\<rparr>"
  from gen_dir_entry_keeps [OF g] have k: "keeps_session s s1" "sents (log s1) = sents (log s)"
    by simp_all
  show ?case
  proof (cases "0 \<le> n \<and> 239 \<le> n + uint index")
    case True
    with Cons.prems g have "response' = ?resp" "s' = s1" by (auto simp: Let_def)
    with k show ?thesis by (simp add: same_header_def)
  next
    case False
    with Cons.prems g obtain index1 where
      "pack_entries E path rest index1 ?resp s1 = (index', response', s')"
      by (auto simp: Let_def split: if_splits)
    from Cons.IH [OF this] k show ?thesis
      by (auto intro: keeps_session_trans simp: same_header_def)
  qed
qed

lemma FS_closedir_keeps: "keeps_session s (FS_closedir E s)"
  by (simp add: FS_closedir_def keeps_log_event)

lemma FS_closedir_sents: "sents (log (FS_closedir E s)) = sents (log s)"
  by (simp add: FS_closedir_def)

lemma ftp_list_dir_keeps:
  assumes "ftp_list_dir E request response s = (response', s')"
  shows "keeps_session s s' \<and> sents (log s') = sents (log s) \<and> same_header response response'"
proof (cases "ftp_check_name_len request")
  case False
  with assms show ?thesis
    by (auto simp: ftp_list_dir_def Let_def keeps_session_refl same_header_def
        ftp_error_at_def ftp_error_def)
next
  case True
  obtain dir s1 where od: "FS_opendir E (list_dir_path request) s = (dir, s1)"
    by (metis prod.exhaust)
  then have k1: "keeps_session s s1" "sents (log s1) = sents (log s)"
    by (auto simp: FS_opendir_def keeps_log_event split: prod.splits)
  let ?resp = "response\<lparr>offset := offset request\<rparr>"
  have h0: "same_header response ?resp" by (simp add: same_header_def)
  show ?thesis
  proof (cases dir)
    case None
    with assms True od have "response' = ftp_error_at E s1 ?resp FailErrno" "s' = s1"
      by (auto simp: ftp_list_dir_def Let_def)
    with k1 h0 show ?thesis by (simp add: same_header_error)
  next
    case (Some entries)
    obtain rest r2 s2 where sk: "skip_entries E (list_dir_path request) (offset request) entries ?resp s1 = (rest, r2, s2)"
      by (metis prod.exhaust)
    from skip_entries_keeps [OF sk] have k2: "keeps_session s1 s2" "sents (log s2) = sents (log s1)"
      "same_header ?resp r2" by simp_all
    show ?thesis
    proof (cases rest)
      case None
      with assms True od Some sk have "response' = ftp_error_at E s2 r2 EndOfFile" "s' = FS_closedir E s2"
        by (auto simp: ftp_list_dir_def Let_def)
      have hd: "same_header response response'"
        unfolding \<open>response' = ftp_error_at E s2 r2 EndOfFile\<close>
        using h0 k2(3) same_header_trans same_header_error by blast
      have "keeps_session s s2"
        using k1(1) k2(1) keeps_session_trans by blast
      then have "keeps_session s s'"
        unfolding \<open>s' = FS_closedir E s2\<close> using FS_closedir_keeps keeps_session_trans by blast
      with hd \<open>s' = FS_closedir E s2\<close> k1 k2 show ?thesis
        by (simp add: FS_closedir_sents)
    next
      case (Some rst)
      obtain index r3 s3 where pk: "pack_entries E (list_dir_path request) rst 0 r2 s2 = (index, r3, s3)"
        by (metis prod.exhaust)
      from pack_entries_keeps [OF pk] have k3: "keeps_session s2 s3" "sents (log s3) = sents (log s2)"
        "same_header r2 r3" by simp_all
      have s': "s' = FS_closedir E s3"
        using assms True od \<open>dir = Some entries\<close> sk Some pk
        by (auto simp: ftp_list_dir_def Let_def split: if_splits)
      have "same_header r3 response'"
        using assms True od \<open>dir = Some entries\<close> sk Some pk
        by (auto simp: ftp_list_dir_def Let_def same_header_def
            ftp_error_at_def ftp_error_def split: if_splits)
      then have hd: "same_header response response'"
        using h0 k2(3) k3(3) same_header_trans by blast
      have "keeps_session s s3"
        using k1(1) k2(1) k3(1) keeps_session_trans by blast
      then have "keeps_session s s'"
        unfolding s' using FS_closedir_keeps keeps_session_trans by blast
      with hd s' k1 k2 k3 show ?thesis
        by (simp add: FS_closedir_sents)
    qed
  qed
qed

lemma same_header_simps:
  "same_header r (r'\<lparr>opcode := a\<rparr>) = same_header r r'"
  "same_header r (r'\<lparr>data := d\<rparr>) = same_header r r'"
  "same_header r (r'\<lparr>size_f := z\<rparr>) = same_header r r'"
  "same_header r (r'\<lparr>offset := off\<rparr>) = same_header r r'"
  "same_header r (r'\<lparr>burst_complete := b\<rparr>) = same_header r r'"
  "same_header r (ftp_error_at E s r' err) = same_header r r'"
  by (simp_all add: same_header_def ftp_error_at_def ftp_error_def Let_def)

lemma op_ReadFile_keeps:
  "op_ReadFile E request reply s = (reply', s') \<Longrightarrow>
     keeps_session s s' \<and> sents (log s') = sents (log s) \<and> same_header reply reply'"
  by (auto simp: op_ReadFile_def Let_def FS_lseek_def FS_read_def keeps_session_def
      same_header_simps same_header_refl split: if_splits prod.splits option.splits)

lemma op_WriteFile_keeps:
  "op_WriteFile E request reply s = (reply', s') \<Longrightarrow>
     keeps_session s s' \<and> sents (log s') = sents (log s) \<and> same_header reply reply'"
  by (auto simp: op_WriteFile_def Let_def FS_lseek_def FS_write_def keeps_session_def
      same_header_simps same_header_refl split: if_splits prod.splits option.splits)

lemma op_CreateDirectory_keeps:
  "op_CreateDirectory E request reply s = (reply', s') \<Longrightarrow>
     keeps_session s s' \<and> sents (log s') = sents (log s) \<and> same_header reply reply'"
  by (auto simp: op_CreateDirectory_def Let_def FS_mkdir_def keeps_session_def
      same_header_simps same_header_refl split: if_splits prod.splits option.splits)

lemma op_RemoveFile_keeps:
  "op_RemoveFile E request reply s = (reply', s') \<Longrightarrow>
     keeps_session s s' \<and> sents (log s') = sents (log s) \<and> same_header reply reply'"
  by (auto simp: op_RemoveFile_def Let_def FS_unlink_def keeps_session_def
      same_header_simps same_header_refl split: if_splits prod.splits option.splits)

lemma op_CalcFileCRC32_keeps:
  "op_CalcFileCRC32 E request reply s = (reply', s') \<Longrightarrow>
     keeps_session s s' \<and> sents (log s') = sents (log s) \<and> same_header reply reply'"
  by (auto simp: op_CalcFileCRC32_def Let_def FS_crc32_def keeps_session_def
      same_header_simps same_header_refl split: if_splits prod.splits option.splits)

lemma op_Rename_keeps:
  "op_Rename E request reply s = (reply', s') \<Longrightarrow>
     keeps_session s s' \<and> sents (log s') = sents (log s) \<and> same_header reply reply'"
  by (auto simp: op_Rename_def Let_def FS_rename_def keeps_session_def
      same_header_simps same_header_refl split: if_splits prod.splits option.splits)

lemma uint_not_minus_one: "uint (x :: 'a::len word) \<noteq> - 1"
  using uint_ge_0 [of x] by arith

lemma close_session_inv:
  "session_inv s \<Longrightarrow> fd (ftp s) \<noteq> - 1 \<Longrightarrow> session_inv (close_session E s)"
  by (auto simp: close_session_def session_inv_def FS_close_def Let_def)

lemma close_session_facts:
  "fd (ftp (close_session E s)) = - 1" "current_session (ftp (close_session E s)) = - 1"
  "sents (log (close_session E s)) = sents (log s)"
  "log (close_session E s) = FsClose (fd (ftp s)) # log s"
  by (simp_all add: close_session_def FS_close_def Let_def)

lemma op_TerminateSession_inv:
  "op_TerminateSession E reply s = (reply', s') \<Longrightarrow>
     (session_inv s \<longrightarrow> session_inv s') \<and> sents (log s') = sents (log s)
     \<and> same_header reply reply'"
  by (auto simp: op_TerminateSession_def session_inv_def FS_close_def Let_def
      same_header_simps same_header_refl split: if_splits)

lemma op_OpenFileWO_inv:
  "op_OpenFileWO E request reply s = (reply', s') \<Longrightarrow>
     (session_inv s \<longrightarrow> session_inv s') \<and> sents (log s') = sents (log s)
     \<and> same_header reply reply'"
  by (auto simp: op_OpenFileWO_def session_inv_def FS_open_def Let_def uint_not_minus_one
      same_header_simps same_header_refl split: if_splits prod.splits)

lemma op_OpenFileRO_inv:
  "op_OpenFileRO E now request reply s = (reply', s') \<Longrightarrow>
     (session_inv s \<longrightarrow> session_inv s') \<and> sents (log s') = sents (log s)
     \<and> same_header reply reply'"
  by (auto simp: op_OpenFileRO_def session_inv_def FS_open_def FS_stat_def FS_close_def
      close_session_def Let_def uint_not_minus_one
      same_header_simps same_header_refl split: if_splits prod.splits option.splits)

subsection \<open>The burst loop\<close>

lemma FS_read_facts:
  assumes "FS_read E f n s = (r, s1)"
  shows "ftp s1 = ftp s" "log s1 = FsRead f n r # log s"
    "\<And>bs. r = Some bs \<Longrightarrow> length bs \<le> n"
  using assms by (auto simp: FS_read_def Let_def split: prod.splits)

lemma FS_read_keeps: "FS_read E f n s = (r, s1) \<Longrightarrow> keeps_session s s1"
  by (auto simp: FS_read_def Let_def keeps_log_event split: prod.splits)

lemma burst_loop_cases:
  assumes "burst_loop E rq m p i reply s = Some (r', s')"
  shows "(\<not> i < 500 \<and> r' = reply \<and> s' = s)
    \<or> (i < 500 \<and> (\<exists>s1. FS_read E (fd (ftp s)) (min 239 m) s = (None, s1)
          \<and> r' = ftp_error_at E s1 reply FailErrno \<and> s' = s1))
    \<or> (i < 500 \<and> (\<exists>s1. FS_read E (fd (ftp s)) (min 239 m) s = (Some [], s1)
          \<and> r' = ftp_error_at E s1 (burst_fill reply []) EndOfFile \<and> s' = s1))
    \<or> (i < 500 \<and> (\<exists>bs s1 s2. FS_read E (fd (ftp s)) (min 239 m) s = (Some bs, s1) \<and> bs \<noteq> []
          \<and> ftp_push_replies E (burst_ack rq m i reply bs) s1 = Some s2
          \<and> burst_loop E rq m p (i + 1) (burst_next m bs (burst_ack rq m i reply bs))
                (s2\<lparr>world := delay E (unat p) (world s2)\<rparr>) = Some (r', s')))"
proof (cases "i < 500")
  case False
  with assms show ?thesis by (simp add: burst_loop.simps)
next
  case True
  obtain r s1 where rd: "FS_read E (fd (ftp s)) (min 239 m) s = (r, s1)"
    by (metis prod.exhaust)
  show ?thesis
  proof (cases r)
    case None
    with assms True rd show ?thesis by (auto simp: burst_loop.simps [of E rq m p i])
  next
    case (Some bs)
    show ?thesis
    proof (cases "bs = []")
      case True
      with assms \<open>i < 500\<close> rd Some show ?thesis by (auto simp: burst_loop.simps [of E rq m p i])
    next
      case False
      with assms \<open>i < 500\<close> rd Some show ?thesis
        by (auto simp: burst_loop.simps [of E rq m p i] Let_def split: option.splits)
    qed
  qed
qed

lemma keeps_world: "keeps_session s (s\<lparr>world := w\<rparr>)"
  by (auto simp: keeps_session_def intro: exI [of _ "[]"])

lemma burst_loop_keeps:
  "burst_loop E rq m p i reply s = Some (r', s') \<Longrightarrow> keeps_session s s'"
proof (induction "500 - i" arbitrary: i reply s)
  case 0
  then have "\<not> i < 500" by simp
  with 0 show ?case by (simp add: burst_loop.simps keeps_session_refl)
next
  case (Suc n)
  from burst_loop_cases [OF Suc.prems] Suc.hyps(2) show ?case
  proof (elim disjE conjE exE)
    fix bs s1 s2
    assume rd: "FS_read E (fd (ftp s)) (min 239 m) s = (Some bs, s1)"
      and push: "ftp_push_replies E (burst_ack rq m i reply bs) s1 = Some s2"
      and rest: "burst_loop E rq m p (i + 1) (burst_next m bs (burst_ack rq m i reply bs))
                (s2\<lparr>world := delay E (unat p) (world s2)\<rparr>) = Some (r', s')"
      and i: "i < 500"
    have "n = 500 - (i + 1)" using Suc.hyps(2) by simp
    from Suc.hyps(1) [OF this rest] have "keeps_session (s2\<lparr>world := delay E (unat p) (world s2)\<rparr>) s'" .
    moreover have "keeps_session s s1" using rd by (rule FS_read_keeps)
    moreover have "keeps_session s1 s2" using push by (rule push_keeps)
    moreover have "keeps_session s2 (s2\<lparr>world := delay E (unat p) (world s2)\<rparr>)" by (rule keeps_world)
    ultimately show ?thesis using keeps_session_trans by blast
  qed (auto simp: keeps_session_refl dest: FS_read_keeps)
qed

lemma burst_loop_live:
  assumes "env_live E"
  shows "\<exists>x. burst_loop E rq m p i reply s = Some x"
proof (induction "500 - i" arbitrary: i reply s)
  case 0
  then show ?case by (simp add: burst_loop.simps)
next
  case (Suc n)
  then have i: "i < 500" by simp
  obtain r s1 where rd: "FS_read E (fd (ftp s)) (min 239 m) s = (r, s1)"
    by (metis prod.exhaust)
  show ?case
  proof (cases r)
    case None
    with i rd show ?thesis by (simp add: burst_loop.simps [of E rq m p i])
  next
    case (Some bs)
    show ?thesis
    proof (cases "bs = []")
      case True
      with i rd Some show ?thesis by (simp add: burst_loop.simps [of E rq m p i])
    next
      case False
      from push_live [OF assms] obtain s2 where
        push: "ftp_push_replies E (burst_ack rq m i reply bs) s1 = Some s2" by blast
      have "n = 500 - (i + 1)" using Suc.hyps(2) by simp
      from Suc.hyps(1) [OF this] obtain x where
        "burst_loop E rq m p (i + 1) (burst_next m bs (burst_ack rq m i reply bs))
                (s2\<lparr>world := delay E (unat p) (world s2)\<rparr>) = Some x" by blast
      with i rd Some False push show ?thesis
        by (simp add: burst_loop.simps [of E rq m p i] Let_def)
    qed
  qed
qed

lemma burst_ack_fields:
  "opcode (burst_ack rq m i reply bs) = FTP_OP_Ack"
  "offset (burst_ack rq m i reply bs) = offset rq + of_nat i * of_nat m"
  "size_f (burst_ack rq m i reply bs) = of_nat (length bs)"
  "burst_complete (burst_ack rq m i reply bs) = (length bs < m \<or> i = 499)"
  "seq_number (burst_ack rq m i reply bs) = seq_number reply"
  "req_opcode (burst_ack rq m i reply bs) = req_opcode reply"
  by (simp_all add: burst_ack_def burst_fill_def Let_def)

lemma burst_next_fields:
  "opcode (burst_next m bs r) = opcode r"
  "seq_number (burst_next m bs r) = seq_number r + 1"
  "req_opcode (burst_next m bs r) = req_opcode r"
  by (simp_all add: burst_next_def Let_def)

lemma ftp_error_fields:
  "opcode (ftp_error_at E s r err) = FTP_OP_Nack"
  "seq_number (ftp_error_at E s r err) = seq_number r"
  "req_opcode (ftp_error_at E s r err) = req_opcode r"
  by (simp_all add: ftp_error_at_def ftp_error_def Let_def)

lemma burst_eof_nack:
  "data (ftp_error_at E s (burst_fill reply []) EndOfFile) ! 0 = err_byte EndOfFile
   \<and> size_f (ftp_error_at E s (burst_fill reply []) EndOfFile) = 1"
  by (simp add: ftp_error_at_def ftp_error_def burst_fill_def Let_def)

lemma burst_ok_step:
  assumes ok: "burst_ok rq m (i + 1) (burst_next m bs (burst_ack rq m i reply bs)) r' rds rs"
    and bs: "bs \<noteq> []" "length bs \<le> min 239 m" and i: "i < 500"
  shows "burst_ok rq m i reply r' (Some bs # rds) (burst_ack rq m i reply bs # rs)"
proof -
  let ?a = "burst_ack rq m i reply bs"
  have each: "\<exists>bs'. (Some bs # rds) ! k = Some bs' \<and> bs' \<noteq> [] \<and> length bs' \<le> min 239 m
           \<and> opcode ((?a # rs) ! k) = FTP_OP_Ack
           \<and> offset ((?a # rs) ! k) = offset rq + of_nat (i + k) * of_nat m
           \<and> size_f ((?a # rs) ! k) = of_nat (length bs')
           \<and> burst_complete ((?a # rs) ! k) = (length bs' < m \<or> i + k = 499)
           \<and> seq_number ((?a # rs) ! k) = seq_number reply + of_nat k
           \<and> req_opcode ((?a # rs) ! k) = req_opcode reply" if k: "k < length (?a # rs)" for k
  proof (cases k)
    case 0
    with bs show ?thesis by (simp add: burst_ack_fields)
  next
    case (Suc j)
    with k have "j < length rs" by simp
    with ok obtain bs' where "rds ! j = Some bs'" "bs' \<noteq> []" "length bs' \<le> min 239 m"
      "opcode (rs ! j) = FTP_OP_Ack"
      "offset (rs ! j) = offset rq + of_nat (i + 1 + j) * of_nat m"
      "size_f (rs ! j) = of_nat (length bs')"
      "burst_complete (rs ! j) = (length bs' < m \<or> i + 1 + j = 499)"
      "seq_number (rs ! j) = seq_number (burst_next m bs ?a) + of_nat j"
      "req_opcode (rs ! j) = req_opcode (burst_next m bs ?a)"
      unfolding burst_ok_def by blast
    with Suc show ?thesis
      by (simp add: burst_ack_fields burst_next_fields)
  qed
  from ok have rest: "length rds \<le> 500 - (i + 1)" "length rs \<le> length rds"
    "(length rds = length rs \<and> i + 1 + length rs = 500
        \<and> opcode r' = (if rs = [] then opcode (burst_next m bs ?a) else FTP_OP_Ack))
     \<or> (length rds = length rs + 1 \<and> opcode r' = FTP_OP_Nack
         \<and> (rds ! length rs = None
             \<or> (rds ! length rs = Some [] \<and> data r' ! 0 = err_byte EndOfFile \<and> size_f r' = 1)))"
    "seq_number r' = seq_number (burst_next m bs ?a) + of_nat (length rs)"
    "req_opcode r' = req_opcode (burst_next m bs ?a)"
    unfolding burst_ok_def by blast+
  have p1: "length (Some bs # rds) \<le> 500 - i" using rest(1) i by simp
  have p2: "length (?a # rs) \<le> length (Some bs # rds)" using rest(2) by simp
  have p3: "(length (Some bs # rds) = length (?a # rs) \<and> i + length (?a # rs) = 500
        \<and> opcode r' = (if ?a # rs = [] then opcode reply else FTP_OP_Ack))
     \<or> (length (Some bs # rds) = length (?a # rs) + 1 \<and> opcode r' = FTP_OP_Nack
         \<and> ((Some bs # rds) ! length (?a # rs) = None
             \<or> ((Some bs # rds) ! length (?a # rs) = Some [] \<and> data r' ! 0 = err_byte EndOfFile
                 \<and> size_f r' = 1)))"
    using rest(3) by (auto simp: burst_ack_fields burst_next_fields split: if_splits)
  have p4: "seq_number r' = seq_number reply + of_nat (length (?a # rs))"
    using rest(4) by (simp add: burst_ack_fields burst_next_fields)
  have p5: "req_opcode r' = req_opcode reply"
    using rest(5) by (simp add: burst_ack_fields burst_next_fields)
  show ?thesis
    unfolding burst_ok_def using p1 p2 each p3 p4 p5 by blast
qed


lemma burst_loop_replies:
  assumes "burst_loop E rq m p i reply s = Some (r', s')" "i \<le> 500"
  shows "\<exists>rds rs. reads (log s') = reads (log s) @ rds \<and> sents (log s') = sents (log s) @ rs
     \<and> burst_ok rq m i reply r' rds rs"
  using assms
proof (induction "500 - i" arbitrary: i reply s)
  case 0
  then have "r' = reply" "s' = s" by (simp_all add: burst_loop.simps)
  moreover have "burst_ok rq m i reply reply [] []"
    using 0 by (simp add: burst_ok_def)
  ultimately show ?case by auto
next
  case (Suc n)
  from burst_loop_cases [OF Suc.prems(1)] Suc.hyps(2) show ?case
  proof (elim disjE conjE exE)
    fix s1
    assume rd: "FS_read E (fd (ftp s)) (min 239 m) s = (None, s1)"
      and r: "r' = ftp_error_at E s1 reply FailErrno" and s: "s' = s1"
    have "burst_ok rq m i reply r' [None] []"
      using Suc.hyps(2) r by (simp add: burst_ok_def ftp_error_fields)
    moreover have "reads (log s') = reads (log s) @ [None]" "sents (log s') = sents (log s) @ []"
      using FS_read_facts(2) [OF rd] s by simp_all
    ultimately show ?thesis by blast
  next
    fix s1
    assume rd: "FS_read E (fd (ftp s)) (min 239 m) s = (Some [], s1)"
      and r: "r' = ftp_error_at E s1 (burst_fill reply []) EndOfFile" and s: "s' = s1"
    have "burst_ok rq m i reply r' [Some []] []"
      using Suc.hyps(2) r burst_eof_nack [of E s1 reply]
      by (simp add: burst_ok_def ftp_error_fields burst_fill_def Let_def)
    moreover have "reads (log s') = reads (log s) @ [Some []]" "sents (log s') = sents (log s) @ []"
      using FS_read_facts(2) [OF rd] s by simp_all
    ultimately show ?thesis by blast
  next
    fix bs s1 s2
    assume rd: "FS_read E (fd (ftp s)) (min 239 m) s = (Some bs, s1)" and ne: "bs \<noteq> []"
      and push: "ftp_push_replies E (burst_ack rq m i reply bs) s1 = Some s2"
      and rest: "burst_loop E rq m p (i + 1) (burst_next m bs (burst_ack rq m i reply bs))
                (s2\<lparr>world := delay E (unat p) (world s2)\<rparr>) = Some (r', s')"
      and i: "i < 500"
    have n: "n = 500 - (i + 1)" using Suc.hyps(2) by simp
    from Suc.hyps(1) [OF n rest] i obtain rds rs where
      r1: "reads (log s') = reads (log (s2\<lparr>world := delay E (unat p) (world s2)\<rparr>)) @ rds"
      and r2: "sents (log s') = sents (log (s2\<lparr>world := delay E (unat p) (world s2)\<rparr>)) @ rs"
      and ok: "burst_ok rq m (i + 1) (burst_next m bs (burst_ack rq m i reply bs)) r' rds rs"
      by auto
    have len: "length bs \<le> min 239 m" using FS_read_facts(3) [OF rd] by simp
    have "burst_ok rq m i reply r' (Some bs # rds) (burst_ack rq m i reply bs # rs)"
      using ok ne len i by (rule burst_ok_step)
    moreover have "reads (log s') = reads (log s) @ Some bs # rds"
      using r1 push_reads [OF push] FS_read_facts(2) [OF rd] by simp
    moreover have "sents (log s') = sents (log s) @ burst_ack rq m i reply bs # rs"
      using r2 push_sents [OF push] FS_read_facts(2) [OF rd] by simp
    ultimately show ?thesis by blast
  qed simp
qed

lemma FS_lseek_facts:
  assumes "FS_lseek E f off s = (r, s1)"
  shows "ftp s1 = ftp s" "log s1 = FsLseek f off # log s"
  using assms by (auto simp: FS_lseek_def Let_def split: prod.splits)

lemma unat_size_byte: "n \<le> 239 \<Longrightarrow> unat (of_nat n :: u8) = n"
  by (simp add: unat_of_nat)

lemma burst_delay_live:
  "env_live E \<Longrightarrow> \<exists>p. burst_delay_ms E rq m w = Some p"
  by (auto simp: burst_delay_ms_def env_live_def Let_def split: option.splits)

text \<open>C5. For a BurstReadFile request that finds a file open in read mode, and whose seek
  succeeds: the chunk size is 239 when the request's size is 0 and the size otherwise; the loop
  makes at most 500 reads; the reply of turn \<open>k\<close> (from 0) answers a read that returned bytes and
  is an Ack with offset \<open>request.offset + k * max_read\<close>, with the number of bytes read as its
  size, and with \<open>burst_complete\<close> set exactly when fewer than \<open>max_read\<close> bytes were read or
  \<open>k\<close> is 499; a read of zero bytes is the last read and leaves an EndOfFile Nack (size 1) for
  the worker to send (\<^verbatim>\<open>skip_push_reply\<close> stays false), as does a failed read with its own Nack;
  after 500 replies nothing more is sent. In an environment that lets the worker through, the
  burst returns.\<close>

theorem burst_read:
  assumes "fd (ftp s) \<noteq> - 1" and "mode (ftp s) = Read"
    and "fst (FS_lseek E (fd (ftp s)) (offset request) s) \<noteq> - 1"
  shows "burst_max_read request = (if size_f request = 0 then 239 else unat (size_f request))
    \<and> (env_live E \<longrightarrow> op_BurstReadFile E request reply s \<noteq> None)
    \<and> (\<forall>skip reply' s'. op_BurstReadFile E request reply s = Some (skip, reply', s') \<longrightarrow>
         (\<exists>rds rs. reads (log s') = reads (log s) @ rds \<and> sents (log s') = sents (log s) @ rs
            \<and> length rds \<le> 500 \<and> length rs \<le> length rds
            \<and> (\<forall>k<length rs. \<exists>bs. rds ! k = Some bs \<and> bs \<noteq> []
                   \<and> opcode (rs ! k) = FTP_OP_Ack
                   \<and> offset (rs ! k) = offset request + of_nat k * of_nat (burst_max_read request)
                   \<and> unat (size_f (rs ! k)) = length bs
                   \<and> (burst_complete (rs ! k) \<longleftrightarrow> length bs < burst_max_read request \<or> k = 499))
            \<and> (length rs = length rds \<longrightarrow> length rs = 500 \<and> skip)
            \<and> (length rs < length rds \<longrightarrow> length rds = length rs + 1 \<and> \<not> skip
                   \<and> opcode reply' = FTP_OP_Nack
                   \<and> (rds ! length rs = None
                       \<or> (rds ! length rs = Some [] \<and> data reply' ! 0 = err_byte EndOfFile
                           \<and> size_f reply' = 1)))))"
proof -
  let ?m = "burst_max_read request"
  obtain r s1 where ls: "FS_lseek E (fd (ftp s)) (offset request) s = (r, s1)"
    by (metis prod.exhaust)
  with assms(3) have r: "r \<noteq> - 1" by simp
  note s1 = FS_lseek_facts [OF ls]
  have unfold: "op_BurstReadFile E request reply s =
      (case burst_delay_ms E request ?m (world s1) of
         None \<Rightarrow> None
       | Some pause \<Rightarrow>
           (case burst_loop E request ?m pause 0 reply s1 of
              None \<Rightarrow> None
            | Some (reply', s') \<Rightarrow> Some (opcode reply' \<noteq> FTP_OP_Nack, reply', s')))"
    using assms(1,2) ls r by (simp add: op_BurstReadFile_def Let_def)
  have live: "op_BurstReadFile E request reply s \<noteq> None" if "env_live E"
  proof -
    from burst_delay_live [OF that] obtain p where
      p: "burst_delay_ms E request ?m (world s1) = Some p" by blast
    from burst_loop_live [OF that] obtain x where
      "burst_loop E request ?m p 0 reply s1 = Some x" by blast
    with p show ?thesis unfolding unfold by (cases x) simp
  qed
  have safe: "\<exists>rds rs. reads (log s') = reads (log s) @ rds \<and> sents (log s') = sents (log s) @ rs
            \<and> length rds \<le> 500 \<and> length rs \<le> length rds
            \<and> (\<forall>k<length rs. \<exists>bs. rds ! k = Some bs \<and> bs \<noteq> []
                   \<and> opcode (rs ! k) = FTP_OP_Ack
                   \<and> offset (rs ! k) = offset request + of_nat k * of_nat ?m
                   \<and> unat (size_f (rs ! k)) = length bs
                   \<and> (burst_complete (rs ! k) \<longleftrightarrow> length bs < ?m \<or> k = 499))
            \<and> (length rs = length rds \<longrightarrow> length rs = 500 \<and> skip)
            \<and> (length rs < length rds \<longrightarrow> length rds = length rs + 1 \<and> \<not> skip
                   \<and> opcode reply' = FTP_OP_Nack
                   \<and> (rds ! length rs = None
                       \<or> (rds ! length rs = Some [] \<and> data reply' ! 0 = err_byte EndOfFile
                           \<and> size_f reply' = 1)))"
    if res: "op_BurstReadFile E request reply s = Some (skip, reply', s')" for skip reply' s'
  proof -
    from res obtain p where
      loop: "burst_loop E request ?m p 0 reply s1 = Some (reply', s')"
      and skip: "skip = (opcode reply' \<noteq> FTP_OP_Nack)"
      unfolding unfold by (auto split: option.splits)
    from burst_loop_replies [OF loop] obtain rds rs where
      rd: "reads (log s') = reads (log s1) @ rds" and sn: "sents (log s') = sents (log s1) @ rs"
      and ok: "burst_ok request ?m 0 reply reply' rds rs" by auto
    have each: "\<exists>bs. rds ! k = Some bs \<and> bs \<noteq> []
                   \<and> opcode (rs ! k) = FTP_OP_Ack
                   \<and> offset (rs ! k) = offset request + of_nat k * of_nat ?m
                   \<and> unat (size_f (rs ! k)) = length bs
                   \<and> (burst_complete (rs ! k) \<longleftrightarrow> length bs < ?m \<or> k = 499)"
      if "k < length rs" for k
    proof -
      from ok that obtain bs where "rds ! k = Some bs" "bs \<noteq> []" "length bs \<le> min 239 ?m"
        "opcode (rs ! k) = FTP_OP_Ack" "offset (rs ! k) = offset request + of_nat (0 + k) * of_nat ?m"
        "size_f (rs ! k) = of_nat (length bs)"
        "burst_complete (rs ! k) = (length bs < ?m \<or> 0 + k = 499)"
        unfolding burst_ok_def by blast
      then show ?thesis by (simp add: unat_size_byte)
    qed
    from ok have lens: "length rds \<le> 500" "length rs \<le> length rds"
      unfolding burst_ok_def by simp_all
    from ok have fin: "(length rds = length rs \<and> 0 + length rs = 500
          \<and> opcode reply' = (if rs = [] then opcode reply else FTP_OP_Ack))
       \<or> (length rds = length rs + 1 \<and> opcode reply' = FTP_OP_Nack
           \<and> (rds ! length rs = None
               \<or> (rds ! length rs = Some [] \<and> data reply' ! 0 = err_byte EndOfFile
                   \<and> size_f reply' = 1)))"
      unfolding burst_ok_def by blast
    have c1: "length rs = length rds \<longrightarrow> length rs = 500 \<and> skip"
      using fin skip by (auto split: if_splits)
    have c2: "length rs < length rds \<longrightarrow> length rds = length rs + 1 \<and> \<not> skip
                   \<and> opcode reply' = FTP_OP_Nack
                   \<and> (rds ! length rs = None
                       \<or> (rds ! length rs = Some [] \<and> data reply' ! 0 = err_byte EndOfFile
                           \<and> size_f reply' = 1))"
      using fin skip by auto
    have "reads (log s') = reads (log s) @ rds" "sents (log s') = sents (log s) @ rs"
      using rd sn s1(2) by simp_all
    with lens each c1 c2 show ?thesis by blast
  qed
  have "?m = (if size_f request = 0 then 239 else unat (size_f request))"
    by (simp add: burst_max_read_def)
  with live safe show ?thesis by blast
qed

text \<open>A burst of chunk size 2 over a file of five bytes on the reference environment: three
  Acks at offsets 0, 2 and 4, the last one short and marked complete, then an EndOfFile Nack.\<close>

theorem burst_read_witness:
  "fd (ftp ((demo_sys 100 (bytes_of ''hello''))\<lparr>ftp := initial_ftp\<lparr>fd := 3, current_session := 7\<rparr>\<rparr>)) \<noteq> - 1
   \<and> mode (ftp ((demo_sys 100 (bytes_of ''hello''))\<lparr>ftp := initial_ftp\<lparr>fd := 3, current_session := 7\<rparr>\<rparr>)) = Read
   \<and> fst (FS_lseek demo_env 3 0
            ((demo_sys 100 (bytes_of ''hello''))\<lparr>ftp := initial_ftp\<lparr>fd := 3, current_session := 7\<rparr>\<rparr>)) \<noteq> - 1
   \<and> burst_max_read (mk_request FTP_OP_BurstReadFile 7 11 2 0 []) = 2
   \<and> (case op_BurstReadFile demo_env (mk_request FTP_OP_BurstReadFile 7 11 2 0 [])
          (setup_reply (mk_request FTP_OP_BurstReadFile 7 11 2 0 []))
          ((demo_sys 100 (bytes_of ''hello''))\<lparr>ftp := initial_ftp\<lparr>fd := 3, current_session := 7\<rparr>\<rparr>) of
       None \<Rightarrow> False
     | Some (skip, r', s') \<Rightarrow> \<not> skip \<and> map offset (sents (log s')) = [0, 2, 4]
         \<and> map size_f (sents (log s')) = [2, 2, 1]
         \<and> map burst_complete (sents (log s')) = [False, False, True]
         \<and> map opcode (sents (log s')) = [FTP_OP_Ack, FTP_OP_Ack, FTP_OP_Ack]
         \<and> reads (log s') = [Some (bytes_of ''he''), Some (bytes_of ''ll''), Some (bytes_of ''o''), Some []]
         \<and> opcode r' = FTP_OP_Nack \<and> data r' ! 0 = err_byte EndOfFile \<and> size_f r' = 1)"
proof -
  let ?s = "(demo_sys 100 (bytes_of ''hello''))\<lparr>ftp := initial_ftp\<lparr>fd := 3, current_session := 7\<rparr>\<rparr>"
  let ?rq = "mk_request FTP_OP_BurstReadFile 7 11 2 0 []"
  have h1: "fd (ftp ?s) \<noteq> - 1" by (simp add: demo_sys_def initial_ftp_def)
  have h2: "mode (ftp ?s) = Read" by (simp add: demo_sys_def initial_ftp_def)
  have f: "fd (ftp ?s) = 3" "offset ?rq = 0" by (simp_all add: demo_sys_def mk_request_def)
  have h3: "fst (FS_lseek demo_env (fd (ftp ?s)) (offset ?rq) ?s) \<noteq> - 1"
    by (simp add: FS_lseek_def demo_env_def demo_sys_def mk_request_def Let_def)
  from burst_read [OF h1 h2 h3, of "setup_reply ?rq"]
  have "burst_max_read ?rq = (if size_f ?rq = 0 then 239 else unat (size_f ?rq))" by blast
  then have m: "burst_max_read ?rq = 2" by (simp add: mk_request_def)
  have ev: "(case op_BurstReadFile demo_env ?rq (setup_reply ?rq) ?s of
       None \<Rightarrow> False
     | Some (skip, r', s') \<Rightarrow> \<not> skip \<and> map offset (sents (log s')) = [0, 2, 4]
         \<and> map size_f (sents (log s')) = [2, 2, 1]
         \<and> map burst_complete (sents (log s')) = [False, False, True]
         \<and> map opcode (sents (log s')) = [FTP_OP_Ack, FTP_OP_Ack, FTP_OP_Ack]
         \<and> reads (log s') = [Some (bytes_of ''he''), Some (bytes_of ''ll''), Some (bytes_of ''o''), Some []]
         \<and> opcode r' = FTP_OP_Nack \<and> data r' ! 0 = err_byte EndOfFile \<and> size_f r' = 1)"
    by code_simp
  from h1 h2 h3 m ev show ?thesis unfolding f by blast
qed

text \<open>The replies a case of the dispatcher sends itself: numbered from the sequence number of
  the reply under construction, and leaving it advanced by their count.\<close>

lemma FS_lseek_keeps: "FS_lseek E f off s = (r, s1) \<Longrightarrow> keeps_session s s1"
  by (auto simp: FS_lseek_def Let_def keeps_log_event split: prod.splits)

lemma op_BurstReadFile_sends:
  assumes "op_BurstReadFile E rq reply s = Some (skip, r', s')"
  shows "keeps_session s s'
    \<and> (\<exists>rs. sents (log s') = sents (log s) @ rs
          \<and> (\<forall>k<length rs. seq_number (rs ! k) = seq_number reply + of_nat k
                 \<and> req_opcode (rs ! k) = req_opcode reply)
          \<and> seq_number r' = seq_number reply + of_nat (length rs)
          \<and> req_opcode r' = req_opcode reply)"
proof -
  obtain r s1 where ls: "FS_lseek E (fd (ftp s)) (offset rq) s = (r, s1)"
    by (metis prod.exhaust)
  note s1 = FS_lseek_facts [OF ls] FS_lseek_keeps [OF ls]
  consider (err) e where "r' = ftp_error_at E s reply e" "s' = s"
    | (seek) "r' = ftp_error_at E s1 reply FailErrno" "s' = s1"
    | (loop) p where "burst_loop E rq (burst_max_read rq) p 0 reply s1 = Some (r', s')"
  proof (cases "fd (ftp s) = - 1")
    case True
    with assms have "r' = ftp_error_at E s reply FileNotFound" "s' = s"
      by (auto simp: op_BurstReadFile_def Let_def)
    then show ?thesis by (rule err)
  next
    case fd: False
    show ?thesis
    proof (cases "mode (ftp s) = Read")
      case False
      with assms fd have "r' = ftp_error_at E s reply Fail" "s' = s"
        by (auto simp: op_BurstReadFile_def Let_def)
      then show ?thesis by (rule err)
    next
      case md: True
      show ?thesis
      proof (cases "r = - 1")
        case True
        with assms fd md ls have "r' = ftp_error_at E s1 reply FailErrno" "s' = s1"
          by (auto simp: op_BurstReadFile_def Let_def)
        then show ?thesis by (rule seek)
      next
        case False
        with assms fd md ls obtain p x where
          "burst_loop E rq (burst_max_read rq) p 0 reply s1 = Some x"
          "Some (opcode (fst x) \<noteq> FTP_OP_Nack, x) = Some (skip, r', s')"
          by (simp add: op_BurstReadFile_def Let_def case_prod_beta split: option.splits)
        then have "burst_loop E rq (burst_max_read rq) p 0 reply s1 = Some (r', s')" by simp
        then show ?thesis by (rule loop)
      qed
    qed
  qed
  then show ?thesis
  proof cases
    case err
    then have "sents (log s') = sents (log s) @ []" by simp
    with err show ?thesis
      by (auto simp: keeps_session_refl ftp_error_fields intro!: exI [of _ "[]"])
  next
    case seek
    then have "sents (log s') = sents (log s) @ []" using s1(2) by simp
    with seek s1(3) show ?thesis
      by (auto simp: ftp_error_fields intro!: exI [of _ "[]"])
  next
    case loop
    from burst_loop_replies [OF loop] obtain rds rs where
      sn: "sents (log s') = sents (log s1) @ rs"
      and ok: "burst_ok rq (burst_max_read rq) 0 reply r' rds rs" by auto
    have k: "keeps_session s s'"
      using burst_loop_keeps [OF loop] s1(3) keeps_session_trans by blast
    have "sents (log s') = sents (log s) @ rs" using sn s1(2) by simp
    moreover have "\<forall>k<length rs. seq_number (rs ! k) = seq_number reply + of_nat k
                 \<and> req_opcode (rs ! k) = req_opcode reply"
      using ok unfolding burst_ok_def by blast
    moreover have "seq_number r' = seq_number reply + of_nat (length rs)"
      "req_opcode r' = req_opcode reply"
      using ok unfolding burst_ok_def by blast+
    ultimately show ?thesis using k by blast
  qed
qed

lemma ftp_dispatch_other:
  assumes "ftp_dispatch E now rq reply s = Some (skip, r', s')"
    and "opcode rq \<noteq> FTP_OP_BurstReadFile"
  shows "(session_inv s \<longrightarrow> session_inv s') \<and> sents (log s') = sents (log s)
    \<and> same_header reply r'"
proof -
  have k: "keeps_session s s' \<Longrightarrow> session_inv s \<longrightarrow> session_inv s'"
    using keeps_session_inv by blast
  consider "opcode rq = FTP_OP_None" | "opcode rq = FTP_OP_TerminateSession \<or> opcode rq = FTP_OP_ResetSessions"
    | "opcode rq = FTP_OP_ListDirectory" | "opcode rq = FTP_OP_OpenFileRO" | "opcode rq = FTP_OP_ReadFile"
    | "opcode rq = FTP_OP_Ack \<or> opcode rq = FTP_OP_Nack"
    | "opcode rq = FTP_OP_OpenFileWO \<or> opcode rq = FTP_OP_CreateFile" | "opcode rq = FTP_OP_WriteFile"
    | "opcode rq = FTP_OP_CreateDirectory" | "opcode rq = FTP_OP_RemoveDirectory \<or> opcode rq = FTP_OP_RemoveFile"
    | "opcode rq = FTP_OP_CalcFileCRC32" | "opcode rq = FTP_OP_Rename"
    | "opcode rq \<notin> {0,1,2,3,4,5,128,129,13,6,7,11,12,10,17,15,16}"
    using assms(2) by auto
  then show ?thesis
  proof cases
    case 1
    with assms show ?thesis by (auto simp: ftp_dispatch_def same_header_simps same_header_refl)
  next
    case 2
    with assms have "op_TerminateSession E reply s = (r', s')" by (auto simp: ftp_dispatch_def)
    from op_TerminateSession_inv [OF this] show ?thesis .
  next
    case 3
    with assms have "ftp_list_dir E rq reply s = (r', s')" by (auto simp: ftp_dispatch_def)
    from ftp_list_dir_keeps [OF this] k show ?thesis by blast
  next
    case 4
    with assms have "op_OpenFileRO E now rq reply s = (r', s')" by (auto simp: ftp_dispatch_def)
    from op_OpenFileRO_inv [OF this] show ?thesis .
  next
    case 5
    with assms have "op_ReadFile E rq reply s = (r', s')" by (auto simp: ftp_dispatch_def)
    from op_ReadFile_keeps [OF this] k show ?thesis by blast
  next
    case 6
    with assms show ?thesis by (auto simp: ftp_dispatch_def same_header_refl)
  next
    case 7
    with assms have "op_OpenFileWO E rq reply s = (r', s')" by (auto simp: ftp_dispatch_def)
    from op_OpenFileWO_inv [OF this] show ?thesis .
  next
    case 8
    with assms have "op_WriteFile E rq reply s = (r', s')" by (auto simp: ftp_dispatch_def)
    from op_WriteFile_keeps [OF this] k show ?thesis by blast
  next
    case 9
    with assms have "op_CreateDirectory E rq reply s = (r', s')" by (auto simp: ftp_dispatch_def)
    from op_CreateDirectory_keeps [OF this] k show ?thesis by blast
  next
    case 10
    with assms have "op_RemoveFile E rq reply s = (r', s')" by (auto simp: ftp_dispatch_def)
    from op_RemoveFile_keeps [OF this] k show ?thesis by blast
  next
    case 11
    with assms have "op_CalcFileCRC32 E rq reply s = (r', s')" by (auto simp: ftp_dispatch_def)
    from op_CalcFileCRC32_keeps [OF this] k show ?thesis by blast
  next
    case 12
    with assms have "op_Rename E rq reply s = (r', s')" by (auto simp: ftp_dispatch_def)
    from op_Rename_keeps [OF this] k show ?thesis by blast
  next
    case 13
    with assms show ?thesis by (auto simp: ftp_dispatch_def same_header_simps same_header_refl)
  qed
qed

lemma ftp_dispatch_burst:
  "ftp_dispatch E now rq reply s = Some (skip, r', s') \<Longrightarrow> opcode rq = FTP_OP_BurstReadFile \<Longrightarrow>
     op_BurstReadFile E rq reply s = Some (skip, r', s')"
  by (simp add: ftp_dispatch_def)

lemma ftp_dispatch_live:
  assumes "env_live E"
  shows "ftp_dispatch E now rq reply s \<noteq> None"
proof (cases "opcode rq = FTP_OP_BurstReadFile")
  case False
  then show ?thesis by (auto simp: ftp_dispatch_def Let_def)
next
  case True
  obtain r s1 where ls: "FS_lseek E (fd (ftp s)) (offset rq) s = (r, s1)"
    by (metis prod.exhaust)
  from burst_delay_live [OF assms] obtain p where
    p: "burst_delay_ms E rq (burst_max_read rq) (world s1) = Some p" by blast
  from burst_loop_live [OF assms] obtain x where
    "burst_loop E rq (burst_max_read rq) p 0 reply s1 = Some x" by blast
  with p ls True show ?thesis
    by (cases x) (auto simp: ftp_dispatch_def op_BurstReadFile_def Let_def)
qed

subsection \<open>One turn of the worker\<close>

lemma push_and_keep_some:
  "push_and_keep E r s = Some (r', s') \<longleftrightarrow> r' = r \<and> ftp_push_replies E r s = Some s'"
  by (auto simp: push_and_keep_def)

lemma push_and_keep_live: "env_live E \<Longrightarrow> push_and_keep E r s \<noteq> None"
  using push_live [of E r s] by (auto simp: push_and_keep_def)

text \<open>The state in which the dispatcher runs: after the reclaim of a file that a foreign
  session finds idle.\<close>

lemma ftp_worker_step_dispatch:
  assumes h1: "\<not> is_rerequest rq reply" and h2: "\<not> 239 < unat (size_f rq)"
    and h3: "\<not> (uint (session rq) \<noteq> current_session (ftp s)
            \<and> (opcode rq = FTP_OP_TerminateSession \<or> opcode rq = FTP_OP_ResetSessions))"
    and h4: "\<not> (fd (ftp s) \<noteq> - 1 \<and> uint (session rq) \<noteq> current_session (ftp s)
            \<and> millis E (world s) - last_send_ms (ftp s) < FTP_SESSION_TIMEOUT)"
  shows "ftp_worker_step E rq reply s =
     (case ftp_dispatch E (millis E (world s)) rq (setup_reply rq)
             (if fd (ftp s) \<noteq> - 1 \<and> uint (session rq) \<noteq> current_session (ftp s)
                 \<and> millis E (world s) - last_send_ms (ftp s) \<ge> FTP_SESSION_TIMEOUT
              then close_session E s else s) of
        None \<Rightarrow> None
      | Some (skip_push_reply, r, s1) \<Rightarrow>
          if skip_push_reply then Some (r, s1) else push_and_keep E r s1)"
  by (simp only: ftp_worker_step_def Let_def if_not_P [OF h1] if_not_P [OF h2] if_not_P [OF h3]
      if_not_P [OF h4])

lemma ftp_worker_step_cases [consumes 1, case_names rerequest direct dispatch]:
  assumes "ftp_worker_step E rq reply s = Some (r', s')"
  obtains (rerequest) "is_rerequest rq reply" "push_and_keep E reply s = Some (r', s')"
  | (direct) r where "\<not> is_rerequest rq reply" "same_header (setup_reply rq) r"
      "push_and_keep E r s = Some (r', s')"
  | (dispatch) skip r s1 where
      "\<not> is_rerequest rq reply"
      "ftp_dispatch E (millis E (world s)) rq (setup_reply rq)
             (if fd (ftp s) \<noteq> - 1 \<and> uint (session rq) \<noteq> current_session (ftp s)
                 \<and> millis E (world s) - last_send_ms (ftp s) \<ge> FTP_SESSION_TIMEOUT
              then close_session E s else s) = Some (skip, r, s1)"
      "if skip then (r', s') = (r, s1) else push_and_keep E r s1 = Some (r', s')"
proof (cases "is_rerequest rq reply")
  case True
  with assms have "push_and_keep E reply s = Some (r', s')"
    by (simp add: ftp_worker_step_def)
  with True show ?thesis by (rule rerequest)
next
  case h1: False
  show ?thesis
  proof (cases "239 < unat (size_f rq)")
    case True
    with assms h1 have "push_and_keep E (ftp_error_at E s (setup_reply rq) InvalidDataSize) s = Some (r', s')"
      by (simp add: ftp_worker_step_def Let_def)
    moreover have "same_header (setup_reply rq) (ftp_error_at E s (setup_reply rq) InvalidDataSize)"
      by (simp add: same_header_simps same_header_refl)
    ultimately show ?thesis using h1 direct by blast
  next
    case h2: False
    show ?thesis
    proof (cases "uint (session rq) \<noteq> current_session (ftp s)
            \<and> (opcode rq = FTP_OP_TerminateSession \<or> opcode rq = FTP_OP_ResetSessions)")
      case True
      have "ftp_worker_step E rq reply s = push_and_keep E ((setup_reply rq)\<lparr>opcode := FTP_OP_Ack\<rparr>) s"
        by (simp only: ftp_worker_step_def Let_def if_not_P [OF h1] if_not_P [OF h2] if_P [OF True])
      with assms have "push_and_keep E ((setup_reply rq)\<lparr>opcode := FTP_OP_Ack\<rparr>) s = Some (r', s')"
        by simp
      moreover have "same_header (setup_reply rq) ((setup_reply rq)\<lparr>opcode := FTP_OP_Ack\<rparr>)"
        by (simp add: same_header_simps same_header_refl)
      ultimately show ?thesis using h1 direct by blast
    next
      case h3: False
      show ?thesis
      proof (cases "fd (ftp s) \<noteq> - 1 \<and> uint (session rq) \<noteq> current_session (ftp s)
            \<and> millis E (world s) - last_send_ms (ftp s) < FTP_SESSION_TIMEOUT")
        case True
        have "ftp_worker_step E rq reply s
            = push_and_keep E (ftp_error_at E s (setup_reply rq) InvalidSession) s"
          by (simp only: ftp_worker_step_def Let_def if_not_P [OF h1] if_not_P [OF h2]
              if_not_P [OF h3] if_P [OF True])
        with assms have "push_and_keep E (ftp_error_at E s (setup_reply rq) InvalidSession) s
            = Some (r', s')"
          by simp
        moreover have "same_header (setup_reply rq) (ftp_error_at E s (setup_reply rq) InvalidSession)"
          by (simp add: same_header_simps same_header_refl)
        ultimately show ?thesis using h1 direct by blast
      next
        case h4: False
        note eq = ftp_worker_step_dispatch [OF h1 h2 h3 h4]
        from assms obtain skip r s1 where
          d: "ftp_dispatch E (millis E (world s)) rq (setup_reply rq)
             (if fd (ftp s) \<noteq> - 1 \<and> uint (session rq) \<noteq> current_session (ftp s)
                 \<and> millis E (world s) - last_send_ms (ftp s) \<ge> FTP_SESSION_TIMEOUT
              then close_session E s else s) = Some (skip, r, s1)"
          and p: "(if skip then Some (r, s1) else push_and_keep E r s1) = Some (r', s')"
          unfolding eq by (auto split: option.splits)
        from p have "if skip then (r', s') = (r, s1) else push_and_keep E r s1 = Some (r', s')"
          by (auto split: if_splits)
        with h1 d show ?thesis by (rule dispatch)
      qed
    qed
  qed
qed

lemma ftp_worker_step_inv:
  assumes "ftp_worker_step E rq reply s = Some (r', s')" "session_inv s"
  shows "session_inv s'"
proof -
  have push: "session_inv s1 \<Longrightarrow> push_and_keep E r s1 = Some (r', s') \<Longrightarrow> session_inv s'" for r s1
    using push_keeps keeps_session_inv by (fastforce simp: push_and_keep_some)
  let ?s0 = "if fd (ftp s) \<noteq> - 1 \<and> uint (session rq) \<noteq> current_session (ftp s)
                 \<and> millis E (world s) - last_send_ms (ftp s) \<ge> FTP_SESSION_TIMEOUT
              then close_session E s else s"
  have s0: "session_inv ?s0" using assms(2) close_session_inv [of s E] by simp
  from assms(1) show ?thesis
  proof (cases rule: ftp_worker_step_cases)
    case rerequest
    with assms(2) push show ?thesis by blast
  next
    case (direct r)
    with assms(2) push show ?thesis by blast
  next
    case (dispatch skip r s1)
    have "session_inv s1"
    proof (cases "opcode rq = FTP_OP_BurstReadFile")
      case True
      from op_BurstReadFile_sends [OF ftp_dispatch_burst [OF dispatch(2) True]] s0
      show ?thesis using keeps_session_inv by blast
    next
      case False
      from ftp_dispatch_other [OF dispatch(2) False] s0 show ?thesis by blast
    qed
    with dispatch(3) push show ?thesis by (auto split: if_splits)
  qed
qed

lemma ftp_worker_step_live:
  assumes "env_live E"
  shows "ftp_worker_step E rq reply s \<noteq> None"
proof (cases "is_rerequest rq reply")
  case True
  then show ?thesis using push_and_keep_live [OF assms] by (simp add: ftp_worker_step_def)
next
  case h1: False
  show ?thesis
  proof (cases "239 < unat (size_f rq)")
    case True
    with h1 show ?thesis using push_and_keep_live [OF assms] by (simp add: ftp_worker_step_def Let_def)
  next
    case h2: False
    show ?thesis
    proof (cases "uint (session rq) \<noteq> current_session (ftp s)
            \<and> (opcode rq = FTP_OP_TerminateSession \<or> opcode rq = FTP_OP_ResetSessions)")
      case True
      have "ftp_worker_step E rq reply s = push_and_keep E ((setup_reply rq)\<lparr>opcode := FTP_OP_Ack\<rparr>) s"
        by (simp only: ftp_worker_step_def Let_def if_not_P [OF h1] if_not_P [OF h2] if_P [OF True])
      then show ?thesis using push_and_keep_live [OF assms] by simp
    next
      case h3: False
      show ?thesis
      proof (cases "fd (ftp s) \<noteq> - 1 \<and> uint (session rq) \<noteq> current_session (ftp s)
            \<and> millis E (world s) - last_send_ms (ftp s) < FTP_SESSION_TIMEOUT")
        case True
        have "ftp_worker_step E rq reply s
            = push_and_keep E (ftp_error_at E s (setup_reply rq) InvalidSession) s"
          by (simp only: ftp_worker_step_def Let_def if_not_P [OF h1] if_not_P [OF h2]
              if_not_P [OF h3] if_P [OF True])
        then show ?thesis using push_and_keep_live [OF assms] by simp
      next
        case h4: False
        let ?s0 = "if fd (ftp s) \<noteq> - 1 \<and> uint (session rq) \<noteq> current_session (ftp s)
                 \<and> millis E (world s) - last_send_ms (ftp s) \<ge> FTP_SESSION_TIMEOUT
              then close_session E s else s"
        from ftp_dispatch_live [OF assms] obtain skip r s1 where
          "ftp_dispatch E (millis E (world s)) rq (setup_reply rq) ?s0 = Some (skip, r, s1)"
          by (metis not_None_eq prod.exhaust)
        then show ?thesis
          unfolding ftp_worker_step_dispatch [OF h1 h2 h3 h4]
          using push_and_keep_live [OF assms] by simp
      qed
    qed
  qed
qed

subsection \<open>The invariant of the session state\<close>

lemma idle_keeps: "keeps_session s (idle E n s)"
  by (simp add: idle_def keeps_world)

lemma ftp_worker_inv:
  "ftp_worker E requests reply s = Some (r', s') \<Longrightarrow> session_inv s \<Longrightarrow> session_inv s'"
proof (induction requests arbitrary: reply s)
  case Nil
  then show ?case by simp
next
  case (Cons a requests)
  obtain n rq where a: "a = (n, rq)" by (cases a)
  from Cons.prems(1) a obtain r1 s1 where
    st: "ftp_worker_step E rq reply (idle E n s) = Some (r1, s1)"
    and rest: "ftp_worker E requests r1 s1 = Some (r', s')"
    by (auto split: option.splits)
  have "session_inv (idle E n s)"
    using idle_keeps Cons.prems(2) keeps_session_inv by blast
  from ftp_worker_step_inv [OF st this] have "session_inv s1" .
  from Cons.IH [OF rest this] show ?case .
qed

lemma ftp_worker_live:
  assumes "env_live E"
  shows "ftp_worker E requests reply s \<noteq> None"
proof (induction requests arbitrary: reply s)
  case Nil
  then show ?case by simp
next
  case (Cons a requests)
  obtain n rq where a: "a = (n, rq)" by (cases a)
  from ftp_worker_step_live [OF assms] obtain r1 s1 where
    "ftp_worker_step E rq reply (idle E n s) = Some (r1, s1)"
    by (metis not_None_eq prod.exhaust)
  with Cons.IH [of r1 s1] a show ?case by simp
qed

lemma initial_inv: "session_inv \<lparr>ftp = initial_ftp, world = w, log = []\<rparr>"
  by (simp add: session_inv_def initial_ftp_def)

text \<open>C3. The session state satisfies its invariant at the start; each turn of the worker
  preserves it; so after any sequence of requests a file is open exactly when a session owns
  it, the filesystem holds that one handle and no other, and it never held more than one at any
  earlier moment. In an environment that lets the worker through, every sequence of requests is
  served to its end.\<close>

theorem session_inv_always:
  "session_inv \<lparr>ftp = initial_ftp, world = w, log = []\<rparr>
   \<and> (session_inv s \<and> ftp_worker_step E request reply s = Some (reply1, s1) \<longrightarrow> session_inv s1)
   \<and> (ftp_worker E requests initial_reply \<lparr>ftp = initial_ftp, world = w, log = []\<rparr> = Some (reply', s')
        \<longrightarrow> (fd (ftp s') \<noteq> - 1 \<longleftrightarrow> current_session (ftp s') \<noteq> - 1)
            \<and> open_handles (log s') = (if fd (ftp s') = - 1 then [] else [fd (ftp s')])
            \<and> length (open_handles (log s')) \<le> 1
            \<and> one_open_always (log s'))
   \<and> (env_live E \<longrightarrow>
         ftp_worker E requests initial_reply \<lparr>ftp = initial_ftp, world = w, log = []\<rparr> \<noteq> None)"
proof (intro conjI impI)
  show "session_inv \<lparr>ftp = initial_ftp, world = w, log = []\<rparr>"
    by (rule initial_inv)
  show "session_inv s1" if "session_inv s \<and> ftp_worker_step E request reply s = Some (reply1, s1)"
    using that ftp_worker_step_inv by blast
  assume run: "ftp_worker E requests initial_reply \<lparr>ftp = initial_ftp, world = w, log = []\<rparr>
      = Some (reply', s')"
  have inv: "session_inv s'"
    using ftp_worker_inv [OF run initial_inv] .
  show "(fd (ftp s') \<noteq> - 1) = (current_session (ftp s') \<noteq> - 1)"
    using inv by (simp add: session_inv_def)
  show "open_handles (log s') = (if fd (ftp s') = - 1 then [] else [fd (ftp s')])"
    using inv by (simp add: session_inv_def)
  show "length (open_handles (log s')) \<le> 1"
    using inv by (simp add: session_inv_def)
  show "one_open_always (log s')"
    using inv by (simp add: session_inv_def)
next
  assume "env_live E"
  then show "ftp_worker E requests initial_reply \<lparr>ftp = initial_ftp, world = w, log = []\<rparr> \<noteq> None"
    by (rule ftp_worker_live)
qed

text \<open>The conversation on the reference environment, which lets the worker through: at its
  end session 9 owns handle 3, the only handle open; the file of session 7 was closed before
  the second \<^verbatim>\<open>open\<close>.\<close>

theorem session_inv_always_witness:
  "env_live demo_env
   \<and> (case ftp_worker demo_env demo_session initial_reply (demo_sys 100 (bytes_of ''hello'')) of
        None \<Rightarrow> False
      | Some (r', s') \<Rightarrow>
          fd (ftp s') = 3 \<and> current_session (ftp s') = 9 \<and> open_handles (log s') = [3]
          \<and> one_open_always (log s')
          \<and> filter (\<lambda>e. \<not> quiet e) (log s')
              = [FsOpen (bytes_of ''/y'') O_WRONLY 3, FsClose 3,
                 FsOpen (bytes_of ''/x'') O_RDONLY 3])"
proof -
  let ?X = "ftp_worker demo_env demo_session initial_reply (demo_sys 100 (bytes_of ''hello''))"
  have live: "env_live demo_env"
    by (simp add: env_live_def tx_ready_def demo_env_def)
  from session_inv_always
    [where E = demo_env and requests = demo_session
      and w = "\<lparr>now_ms = 100, content = bytes_of ''hello'', pos = 0\<rparr>"] live
  have "?X \<noteq> None" unfolding demo_sys_def by blast
  moreover have "case ?X of None \<Rightarrow> True
      | Some (r', s') \<Rightarrow>
          fd (ftp s') = 3 \<and> current_session (ftp s') = 9 \<and> open_handles (log s') = [3]
          \<and> one_open_always (log s')
          \<and> filter (\<lambda>e. \<not> quiet e) (log s')
              = [FsOpen (bytes_of ''/y'') O_WRONLY 3, FsClose 3,
                 FsOpen (bytes_of ''/x'') O_RDONLY 3]"
    by code_simp
  ultimately show ?thesis using live by (auto split: option.splits)
qed

end
